theory Spec2Isabelle
  imports Main
begin

chapter \<open>Artifact reconciliation and grid decomposition: embedding of the Python sources\<close>

text \<open>
  The development follows the source files:
  \<^item> \<^verbatim>\<open>app/session/memory.py\<close>: the recency ledger (\<^verbatim>\<open>SessionMemory\<close>);
  \<^item> \<^verbatim>\<open>app/tools/generate_image_tool.py\<close>: border trim, grid split, generation;
  \<^item> \<^verbatim>\<open>app/tools/edit_image_tool.py\<close>: the edit computation;
  \<^item> \<^verbatim>\<open>app/tools/artifact_wrapper.py\<close>: target resolution of the edit wrapper;
  \<^item> \<^verbatim>\<open>app/api/main.py\<close>: listing, polling and the two endpoints.

  Python integers are \<open>int\<close>, strings are \<open>string\<close>, \<^verbatim>\<open>Optional[str]\<close> is
  \<open>string option\<close>. Mutable state (the ledger, the uploads directory) is passed in and
  returned. What the sources consume from outside the repository (the clock, the UUID
  generator, the image model, the agent runner, the directory as it changes over time,
  the image library's encoder) is a parameter of the function that consumes it.
\<close>

section \<open>Python strings\<close>

text \<open>\<^verbatim>\<open>s.startswith(p)\<close>, \<^verbatim>\<open>s.endswith(p)\<close> and \<^verbatim>\<open>sub in s\<close>.\<close>

definition startswith :: "string \<Rightarrow> string \<Rightarrow> bool" where
  "startswith s p = (take (length p) s = p)"

definition endswith :: "string \<Rightarrow> string \<Rightarrow> bool" where
  "endswith s p = (length p \<le> length s \<and> drop (length s - length p) s = p)"

fun contains :: "string \<Rightarrow> string \<Rightarrow> bool" where
  "contains sub [] = (sub = [])"
| "contains sub (c # cs) = (startswith (c # cs) sub \<or> contains sub cs)"

text \<open>
  \<^verbatim>\<open>s.lower()\<close>, on the ASCII letters. (Characters here are bytes; the indicator
  words the endpoints look for are ASCII.)
\<close>

definition lower_char :: "char \<Rightarrow> char" where
  "lower_char c =
     (case map_of (zip ''ABCDEFGHIJKLMNOPQRSTUVWXYZ'' ''abcdefghijklmnopqrstuvwxyz'') c of
        Some d \<Rightarrow> d
      | None \<Rightarrow> c)"

definition lower :: "string \<Rightarrow> string" where
  "lower s = map lower_char s"

text \<open>\<^verbatim>\<open>str(n)\<close> for a non-negative integer, as the f-strings format counts and ordinals.\<close>

fun str_nat :: "nat \<Rightarrow> string" where
  "str_nat n =
     (if n < 10 then [''0123456789'' ! n]
      else str_nat (n div 10) @ [''0123456789'' ! (n mod 10)])"

declare str_nat.simps [simp del]

text \<open>
  Truthiness of an \<^verbatim>\<open>Optional[str]\<close> and the expression \<^verbatim>\<open>a or b\<close>: \<^verbatim>\<open>None\<close> and the
  empty string are both falsy.
\<close>

definition truthy :: "string option \<Rightarrow> bool" where
  "truthy v = (case v of None \<Rightarrow> False | Some s \<Rightarrow> s \<noteq> [])"

definition py_or :: "string option \<Rightarrow> string option \<Rightarrow> string option" where
  "py_or a b = (if truthy a then a else b)"

text \<open>
  The slice \<^verbatim>\<open>xs[:n]\<close>: a negative \<open>n\<close> counts from the end.
\<close>

definition py_take :: "int \<Rightarrow> 'a list \<Rightarrow> 'a list" where
  "py_take n xs = (if 0 \<le> n then take (nat n) xs else take (nat (int (length xs) + n)) xs)"

section \<open>Paths (\<^verbatim>\<open>posixpath\<close>)\<close>

text \<open>\<^verbatim>\<open>s.rfind(c)\<close>: the index of the last occurrence of \<open>c\<close>, or \<open>-1\<close>.\<close>

definition rfind :: "char \<Rightarrow> string \<Rightarrow> int" where
  "rfind c s =
     (if c \<in> set s then int (length s) - 1 - int (length (takeWhile (\<lambda>x. x \<noteq> c) (rev s)))
      else - 1)"

text \<open>
  \<^verbatim>\<open>os.path.splitext\<close>: split at the last dot of the last path component, unless only
  dots stand between the last separator and that dot.
\<close>

definition splitext :: "string \<Rightarrow> string \<times> string" where
  "splitext p =
     (let sepIndex = rfind CHR ''/'' p;
          dotIndex = rfind CHR ''.'' p
      in if dotIndex > sepIndex \<and>
            list_ex (\<lambda>ch. ch \<noteq> CHR ''.'')
              (take (nat (dotIndex - (sepIndex + 1))) (drop (nat (sepIndex + 1)) p))
         then (take (nat dotIndex) p, drop (nat dotIndex) p)
         else (p, []))"

definition basename :: "string \<Rightarrow> string" where
  "basename p = drop (nat (rfind CHR ''/'' p + 1)) p"

definition path_join :: "string \<Rightarrow> string \<Rightarrow> string" where
  "path_join a b =
     (if startswith b ''/'' then b
      else if a = [] \<or> endswith a ''/'' then a @ b
      else a @ ''/'' @ b)"

definition UPLOAD_DIR :: string where
  "UPLOAD_DIR = ''uploads''"

section \<open>The recency ledger (\<^verbatim>\<open>SessionMemory\<close>)\<close>

record SessionMemory =
  last_generated :: "string option"
  last_edited :: "string option"
  recent_images :: "string list"

definition init_memory :: SessionMemory where
  "init_memory = \<lparr>last_generated = None, last_edited = None, recent_images = []\<rparr>"

definition set_last_generated :: "string \<Rightarrow> SessionMemory \<Rightarrow> SessionMemory" where
  "set_last_generated filename m =
     (let m1 = m\<lparr>last_generated := Some filename\<rparr>
      in if filename \<notin> set (recent_images m1)
         then m1\<lparr>recent_images := take 10 (filename # recent_images m1)\<rparr>
         else m1)"

definition set_last_edited :: "string \<Rightarrow> SessionMemory \<Rightarrow> SessionMemory" where
  "set_last_edited filename m =
     (let m1 = m\<lparr>last_edited := Some filename\<rparr>
      in if filename \<notin> set (recent_images m1)
         then m1\<lparr>recent_images := take 10 (filename # recent_images m1)\<rparr>
         else m1)"

definition get_last_generated :: "SessionMemory \<Rightarrow> string option" where
  "get_last_generated m = last_generated m"

definition get_last_edited :: "SessionMemory \<Rightarrow> string option" where
  "get_last_edited m = last_edited m"

definition get_most_recent :: "SessionMemory \<Rightarrow> string option" where
  "get_most_recent m =
     (case recent_images m of
        x # _ \<Rightarrow> Some x
      | [] \<Rightarrow> py_or (last_generated m) (last_edited m))"

text \<open>
  A run of ledger insertions, in call order: each is one call of
  \<^verbatim>\<open>set_last_generated\<close> or \<^verbatim>\<open>set_last_edited\<close>.
\<close>

datatype ledger_op = SetGenerated string | SetEdited string

fun op_name :: "ledger_op \<Rightarrow> string" where
  "op_name (SetGenerated f) = f"
| "op_name (SetEdited f) = f"

fun apply_ledger_op :: "SessionMemory \<Rightarrow> ledger_op \<Rightarrow> SessionMemory" where
  "apply_ledger_op m (SetGenerated f) = set_last_generated f m"
| "apply_ledger_op m (SetEdited f) = set_last_edited f m"

definition run_ledger_ops :: "ledger_op list \<Rightarrow> SessionMemory \<Rightarrow> SessionMemory" where
  "run_ledger_ops ops m = foldl apply_ledger_op m ops"

section \<open>Images and border trim (\<^verbatim>\<open>generate_image_tool.py\<close>)\<close>

text \<open>
  An RGB image: its size and the pixel at each coordinate, read as \<^verbatim>\<open>pixels[x, y]\<close>.
  Only coordinates inside the size are ever read.
\<close>

type_synonym rgb = "int \<times> int \<times> int"

record image =
  width :: nat
  height :: nat
  pixels :: "int \<Rightarrow> int \<Rightarrow> rgb"

text \<open>\<^verbatim>\<open>range(n)\<close> for a size \<open>n\<close>.\<close>

definition py_range :: "nat \<Rightarrow> int list" where
  "py_range n = map int [0..<n]"

text \<open>The test of line 47: a pixel is content when some channel is below the threshold.\<close>

definition is_content :: "int \<Rightarrow> rgb \<Rightarrow> bool" where
  "is_content threshold p = (case p of (r, g, b) \<Rightarrow> r < threshold \<or> g < threshold \<or> b < threshold)"

text \<open>
  The pixel at \<open>(x, y)\<close> lies inside the image and is content. (Used to state properties
  of the scan; the scan itself is \<open>content_bounds\<close> below.)
\<close>

definition content_pixel :: "image \<Rightarrow> int \<Rightarrow> int \<Rightarrow> int \<Rightarrow> bool" where
  "content_pixel img threshold x y =
     (0 \<le> x \<and> x < int (width img) \<and> 0 \<le> y \<and> y < int (height img) \<and>
      is_content threshold (pixels img x y))"

text \<open>The running \<^verbatim>\<open>(min_x, min_y, max_x, max_y)\<close> of the scan, and one pass of its inner body.\<close>

type_synonym bounds = "int \<times> int \<times> int \<times> int"

definition scan_pixel :: "image \<Rightarrow> int \<Rightarrow> int \<Rightarrow> int \<Rightarrow> bounds \<Rightarrow> bounds" where
  "scan_pixel img threshold y x bb =
     (case bb of (min_x, min_y, max_x, max_y) \<Rightarrow>
        if is_content threshold (pixels img x y)
        then (min min_x x, min min_y y, max max_x x, max max_y y)
        else bb)"

text \<open>The two nested loops of lines 40 to 51, started at \<^verbatim>\<open>(width, height, 0, 0)\<close>.\<close>

definition content_bounds :: "image \<Rightarrow> int \<Rightarrow> bounds" where
  "content_bounds img threshold =
     fold (\<lambda>y. fold (scan_pixel img threshold y) (py_range (width img)))
       (py_range (height img))
       (int (width img), int (height img), 0, 0)"

text \<open>
  \<^verbatim>\<open>image.crop((x0, y0, x1, y1))\<close>, the box being (left, upper, right, lower): the right
  and lower bounds are exclusive, so the result is \<open>x1 - x0\<close> wide and \<open>y1 - y0\<close> high
  and holds the columns \<open>x0\<close> to \<open>x1 - 1\<close> and the rows \<open>y0\<close> to \<open>y1 - 1\<close>.
\<close>

definition crop :: "image \<Rightarrow> bounds \<Rightarrow> image" where
  "crop img box =
     (case box of (x0, y0, x1, y1) \<Rightarrow>
        \<lparr>width = nat (x1 - x0), height = nat (y1 - y0),
         pixels = (\<lambda>x y. pixels img (x0 + x) (y0 + y))\<rparr>)"

text \<open>The pixel \<open>(x, y)\<close> is one of those a crop box keeps.\<close>

definition in_box :: "bounds \<Rightarrow> int \<Rightarrow> int \<Rightarrow> bool" where
  "in_box box x y = (case box of (x0, y0, x1, y1) \<Rightarrow> x0 \<le> x \<and> x < x1 \<and> y0 \<le> y \<and> y < y1)"

definition remove_white_borders :: "image \<Rightarrow> int \<Rightarrow> image" where
  "remove_white_borders img threshold =
     (case content_bounds img threshold of (min_x, min_y, max_x, max_y) \<Rightarrow>
        if min_x \<ge> max_x \<or> min_y \<ge> max_y then img
        else
          let padding = 5;
              min_x' = max 0 (min_x - padding);
              min_y' = max 0 (min_y - padding);
              max_x' = min (int (width img)) (max_x + padding);
              max_y' = min (int (height img)) (max_y + padding)
          in crop img (min_x', min_y', max_x', max_y'))"

section \<open>The uploads directory\<close>

text \<open>
  What a file holds, as far as the tools distinguish it: nothing, bytes the image library
  refuses to decode (with the text of the exception it raises), or an encoded image.
\<close>

datatype file_content = Empty | Undecodable string | Encoded image

text \<open>The files by path.\<close>

type_synonym uploads = "string \<Rightarrow> file_content option"

text \<open>
  The text of the exception \<^verbatim>\<open>PIL.Image.open\<close> raises on a file with no bytes. The library
  formats the path with \<^verbatim>\<open>%r\<close>; the definition is that rendering for a path holding no quote,
  no backslash and no non-printable character, which Python writes unchanged between single
  quotes.
\<close>

definition cannot_identify :: "string \<Rightarrow> string" where
  "cannot_identify filepath = ''cannot identify image file '' @ [CHR 0x27] @ filepath @ [CHR 0x27]"

section \<open>Grid split (\<^verbatim>\<open>split_grid_image\<close>)\<close>

text \<open>An entry of \<^verbatim>\<open>split_data\<close>: filename, the bytes written, MIME type.\<close>

datatype split_entry = SplitEntry string file_content string

fun entry_filename :: "split_entry \<Rightarrow> string" where
  "entry_filename (SplitEntry f b m) = f"

text \<open>The returned dictionary: \<^verbatim>\<open>success\<close> false with an error text, or true with the entries.\<close>

datatype split_result = SplitFailure string | SplitSuccess "split_entry list" string

text \<open>
  The origins of line 102 with their ordinals (\<^verbatim>\<open>enumerate(..., 1)\<close>), and the crop box
  of line 104 for an origin.
\<close>

definition quadrant_origins :: "int \<Rightarrow> int \<Rightarrow> (nat \<times> int \<times> int) list" where
  "quadrant_origins quad_width quad_height =
     [(1, 0, 0), (2, quad_width, 0), (3, 0, quad_height), (4, quad_width, quad_height)]"

definition quadrant_box :: "int \<Rightarrow> int \<Rightarrow> int \<times> int \<Rightarrow> bounds" where
  "quadrant_box quad_width quad_height origin = (case origin of (x, y) \<Rightarrow> (x, y, x + quad_width, y + quad_height))"

text \<open>
  The loop body of lines 102 to 124 over the remaining origins. \<open>save_error\<close> stands for
  \<^verbatim>\<open>quadrant.save\<close>: \<open>None\<close> when the image library writes the file, the text of the
  exception otherwise. An exception leaves the files written so far in place.
\<close>

fun split_loop ::
  "(string \<Rightarrow> image \<Rightarrow> string option) \<Rightarrow> image \<Rightarrow> int \<Rightarrow> int \<Rightarrow> string \<Rightarrow> string \<Rightarrow>
   (nat \<times> int \<times> int) list \<Rightarrow> split_entry list \<Rightarrow> uploads \<Rightarrow> (string + split_entry list) \<times> uploads" where
  "split_loop save_error grid_image quad_width quad_height base_name ext [] split_data fs =
     (Inr split_data, fs)"
| "split_loop save_error grid_image quad_width quad_height base_name ext ((i, x, y) # rest) split_data fs =
     (let quadrant = crop grid_image (quadrant_box quad_width quad_height (x, y));
          quadrant = remove_white_borders quadrant 240;
          quad_filename = base_name @ ''_'' @ str_nat i @ ext;
          quad_filepath = path_join UPLOAD_DIR quad_filename
      in case save_error quad_filepath quadrant of
           Some e \<Rightarrow> (Inl e, fs)
         | None \<Rightarrow>
             split_loop save_error grid_image quad_width quad_height base_name ext rest
               (split_data @ [SplitEntry quad_filename (Encoded quadrant) ''image/png''])
               (fs(quad_filepath \<mapsto> Encoded quadrant)))"

definition split_grid_image ::
  "(string \<Rightarrow> image \<Rightarrow> string option) \<Rightarrow> string \<Rightarrow> bool \<Rightarrow> uploads \<Rightarrow> split_result \<times> uploads" where
  "split_grid_image save_error filename remove_original fs =
     (let filepath = path_join UPLOAD_DIR filename
      in case fs filepath of
           None \<Rightarrow> (SplitFailure (''Image file not found: '' @ filepath), fs)
         | Some Empty \<Rightarrow> (SplitFailure (''Error splitting grid image: '' @ cannot_identify filepath), fs)
         | Some (Undecodable e) \<Rightarrow> (SplitFailure (''Error splitting grid image: '' @ e), fs)
         | Some (Encoded grid_image) \<Rightarrow>
             let quad_width = int (width grid_image) div 2;
                 quad_height = int (height grid_image) div 2;
                 (base_name, ext) = splitext filename
             in (case split_loop save_error grid_image quad_width quad_height base_name ext
                        (quadrant_origins quad_width quad_height) [] fs of
                   (Inl e, fs1) \<Rightarrow> (SplitFailure (''Error splitting grid image: '' @ e), fs1)
                 | (Inr split_data, fs1) \<Rightarrow>
                     (SplitSuccess split_data
                        (''Successfully split grid into '' @ str_nat (length split_data) @ '' images''),
                      if remove_original then fs1(filepath := None) else fs1)))"

section \<open>Generation (\<^verbatim>\<open>generate_image_compute\<close>)\<close>

text \<open>
  What one call of the image model gives: an exception (with its text), a response with
  no inline image part, or the bytes of the first inline image part.
\<close>

datatype model_response = ModelRaised string | NoImage | InlineImage file_content

text \<open>
  The returned dictionary: failure with its error text, or success with the images
  (filename and MIME type each), the message and the unique id.
\<close>

datatype gen_result = GenFailure string | GenSuccess "(string \<times> string) list" string string

text \<open>
  \<open>now\<close> is \<^verbatim>\<open>datetime.now().strftime("%Y%m%d_%H%M%S_%f")\<close> and \<open>uuid4\<close> is
  \<^verbatim>\<open>str(uuid.uuid4())\<close>. \<^verbatim>\<open>pack_size\<close> is forced to 1, so the loop of line 177 runs once,
  with \<open>i = 0\<close>.
\<close>

definition generate_image_compute ::
  "(string \<Rightarrow> image \<Rightarrow> string option) \<Rightarrow> string \<Rightarrow> string \<Rightarrow> model_response \<Rightarrow> uploads \<Rightarrow>
   gen_result \<times> uploads" where
  "generate_image_compute save_error now uuid4 response fs =
     (let unique_id = take 8 uuid4;
          ts = now @ ''_'' @ unique_id;
          i = (0::nat)
      in case response of
           ModelRaised e \<Rightarrow>
             (GenFailure (''Failed to generate any images. '' @
                ''Error generating image '' @ str_nat (i + 1) @ '': '' @ e), fs)
         | NoImage \<Rightarrow> (GenFailure ''Failed to generate any images. Unknown error'', fs)
         | InlineImage image_bytes \<Rightarrow>
             let name = ''image_'' @ ts @ ''_'' @ str_nat (i + 1) @ ''.png'';
                 filepath = path_join UPLOAD_DIR name;
                 fs1 = fs(filepath \<mapsto> image_bytes)
             in (case split_grid_image save_error name True fs1 of
                   (SplitSuccess split_data msg, fs2) \<Rightarrow>
                     (GenSuccess (map (\<lambda>e. (entry_filename e, ''image/png'')) split_data)
                        (''Successfully generated '' @ str_nat (length split_data) @ '' images'')
                        unique_id, fs2)
                 | (SplitFailure err, fs2) \<Rightarrow>
                     (GenSuccess [(name, ''image/png'')]
                        (''Successfully generated '' @ str_nat 1 @ '' images'') unique_id, fs2)))"

section \<open>Editing (\<^verbatim>\<open>edit_image_tool.py\<close>)\<close>

text \<open>Failure with its error text, or success with filename, MIME type and message.\<close>

datatype edit_result = EditFailure string | EditSuccess string string string

text \<open>The fallback table of lines 69 to 76, for an extension \<^verbatim>\<open>mimetypes\<close> does not know.\<close>

definition mime_map :: "string \<Rightarrow> string" where
  "mime_map ext =
     (case map_of [(''.png'', ''image/png''), (''.jpg'', ''image/jpeg''), (''.jpeg'', ''image/jpeg''),
                   (''.webp'', ''image/webp''), (''.gif'', ''image/gif'')] ext of
        Some m \<Rightarrow> m
      | None \<Rightarrow> ''image/png'')"

text \<open>
  \<open>guess_type\<close> is \<^verbatim>\<open>mimetypes.guess_type\<close>; \<open>now\<close> is
  \<^verbatim>\<open>datetime.now().strftime("%Y%m%d_%H%M%S")\<close>; \<open>first\<close> is what the model call with a
  generation config gives, \<open>second\<close> what the retry without it gives (made only when the
  first call raises).
\<close>

definition edit_image_compute ::
  "(string \<Rightarrow> string option) \<Rightarrow> string \<Rightarrow> model_response \<Rightarrow> model_response \<Rightarrow>
   string \<Rightarrow> string option \<Rightarrow> uploads \<Rightarrow> edit_result \<times> uploads" where
  "edit_image_compute guess_type now first second edit_prompt image_path fs =
     (case image_path of
        None \<Rightarrow> (EditFailure ''No image_path provided'', fs)
      | Some path \<Rightarrow>
          if path = [] then (EditFailure ''No image_path provided'', fs)
          else if fs (path_join UPLOAD_DIR path) = None \<and> fs path = None
          then (EditFailure (''Image file not found: '' @ path), fs)
          else
            let filepath = (if fs (path_join UPLOAD_DIR path) = None then path
                            else path_join UPLOAD_DIR path)
            in (case fs filepath of
                  None \<Rightarrow> (EditFailure (''Image file not found: '' @ path), fs)
                | Some Empty \<Rightarrow> (EditFailure (''Error loading image: '' @ cannot_identify filepath), fs)
                | Some (Undecodable e) \<Rightarrow> (EditFailure (''Error loading image: '' @ e), fs)
                | Some (Encoded pil_image) \<Rightarrow>
                    let original_filename = basename filepath;
                        mime_type = (case guess_type filepath of
                                       Some m \<Rightarrow> m
                                     | None \<Rightarrow> mime_map (lower (snd (splitext filepath))));
                        response = (case first of ModelRaised e \<Rightarrow> second | _ \<Rightarrow> first)
                    in (case response of
                          ModelRaised e \<Rightarrow> (EditFailure (''Error editing image: '' @ e), fs)
                        | NoImage \<Rightarrow>
                            (EditFailure ''Failed to extract edited image from API response.'', fs)
                        | InlineImage Empty \<Rightarrow>
                            (EditFailure ''Failed to extract edited image from API response.'', fs)
                        | InlineImage edited_image_bytes \<Rightarrow>
                            let ts = now;
                                (name, ext) = splitext original_filename;
                                edited_filename = ''edited_'' @ ts @ ''_'' @ name @ ext;
                                edited_filepath = path_join UPLOAD_DIR edited_filename
                            in (EditSuccess edited_filename mime_type
                                  (''Successfully edited image. Saved as '' @ edited_filename),
                                fs(edited_filepath \<mapsto> edited_image_bytes)))))"

section \<open>Target resolution of the edit wrapper (\<^verbatim>\<open>edit_image_with_artifacts\<close>)\<close>

text \<open>
  Lines 98 to 110 of \<^verbatim>\<open>artifact_wrapper.py\<close>: the path handed to
  \<^verbatim>\<open>edit_image_compute\<close>, or \<open>None\<close> where the wrapper returns its
  "no recent image" error.
\<close>

definition wrapper_image_path :: "string option \<Rightarrow> SessionMemory \<Rightarrow> string option" where
  "wrapper_image_path image_path m =
     (let image_path1 =
            (if \<not> truthy image_path
             then (let p = get_last_generated m in if truthy p then p else get_most_recent m)
             else image_path)
      in if \<not> truthy image_path1 then None else image_path1)"

section \<open>Listing and polling (\<^verbatim>\<open>app/api/main.py\<close>)\<close>

text \<open>
  What \<^verbatim>\<open>os.listdir\<close> and \<^verbatim>\<open>os.path.getmtime\<close> give at one moment: the names in the
  directory's order, each with its modification time. \<open>None\<close> is a listing that raises
  (the directory or a listed file is gone), which \<^verbatim>\<open>list_images\<close> turns into \<open>[]\<close>.
\<close>

type_synonym listing = "(string \<times> int) list"

text \<open>
  \<^verbatim>\<open>files.sort(key=mtime, reverse=True)\<close> is a stable sort by descending time: files of
  equal time keep the directory's order.
\<close>

definition list_images :: "listing option \<Rightarrow> string \<Rightarrow> int \<Rightarrow> string list" where
  "list_images dir prefix limit =
     (case dir of
        None \<Rightarrow> []
      | Some entries \<Rightarrow>
          let files = filter (\<lambda>(f, t). endswith f ''.png'' \<and> startswith f prefix) entries;
              files = sort_key (\<lambda>(f, t). - t) files
          in py_take limit (map fst files))"

text \<open>
  The loop of \<^verbatim>\<open>wait_for_images\<close>. \<open>env k\<close> is the directory as the \<open>k\<close>-th listing of
  the call finds it (\<open>env 0\<close> at once, \<open>env (k + 1)\<close> after one more sleep of
  \<^verbatim>\<open>poll_interval\<close>). The loop state is the number \<open>k\<close> of sleeps so far, \<^verbatim>\<open>waited\<close> and
  \<^verbatim>\<open>filenames\<close>. With a \<^verbatim>\<open>poll_interval\<close> that is not positive the loop need not end;
  not returning is the value \<open>None\<close>. The number of sleeps is returned with the names.
\<close>

partial_function (option) wait_loop ::
  "(nat \<Rightarrow> listing option) \<Rightarrow> string \<Rightarrow> int \<Rightarrow> int \<Rightarrow> int \<Rightarrow> nat \<Rightarrow> int \<Rightarrow> string list \<Rightarrow>
   (string list \<times> nat) option" where
  "wait_loop env prefix limit max_wait_time poll_interval k waited filenames =
     (if filenames = [] \<and> waited < max_wait_time
      then wait_loop env prefix limit max_wait_time poll_interval (Suc k)
             (waited + poll_interval) (list_images (env (Suc k)) prefix limit)
      else Some (filenames, k))"

definition wait_for_images ::
  "(nat \<Rightarrow> listing option) \<Rightarrow> string \<Rightarrow> int \<Rightarrow> int \<Rightarrow> int \<Rightarrow> (string list \<times> nat) option" where
  "wait_for_images env prefix limit max_wait_time poll_interval =
     wait_loop env prefix limit max_wait_time poll_interval 0 0 (list_images (env 0) prefix limit)"

section \<open>The delegation layer as the endpoints see it\<close>

text \<open>
  An event of the runner's stream: whether it is a final response, and the texts of its
  content parts (the empty list when it has no content, the empty text for a part with
  no text).
\<close>

datatype event = Event bool "string list"

fun is_final_response :: "event \<Rightarrow> bool" where
  "is_final_response (Event final parts) = final"

fun event_text :: "event \<Rightarrow> string" where
  "event_text (Event final parts) = concat parts"

text \<open>The run of the agent: the exception it raises, or its events.\<close>

datatype agent_run = AgentRaised string | AgentEvents "event list"

text \<open>
  Lines 177 to 199: the texts of all events, replaced by the texts of the last final
  event when that event has content parts.
\<close>

definition agent_message :: "event list \<Rightarrow> string" where
  "agent_message events =
     (case rev (filter is_final_response events) of
        [] \<Rightarrow> concat (map event_text events)
      | Event final parts # _ \<Rightarrow>
          if parts = [] then concat (map event_text events) else concat parts)"

section \<open>The endpoints\<close>

text \<open>Request and response models, fields in the order the classes declare them.\<close>

datatype GenerateRequest = GenerateRequest string "string option"

datatype EditRequest = EditRequest string "string option" "string option"

datatype GenerateResponse = GenerateResponse bool string "string list" string

datatype EditResponse = EditResponse bool string string string

text \<open>\<^verbatim>\<open>HTTPException(status_code, detail)\<close>.\<close>

datatype http_error = HTTPException int string

text \<open>The conditions of line 222 and of lines 329 to 336, on a non-empty message.\<close>

definition generate_error_indicator :: "string \<Rightarrow> bool" where
  "generate_error_indicator message =
     (contains ''Error:'' message \<or> contains ''error'' (lower message) \<or>
      contains ''failed'' (lower message))"

definition edit_error_indicator :: "string \<Rightarrow> bool" where
  "edit_error_indicator message =
     (contains ''Error:'' message \<or> contains ''error'' (lower message) \<or>
      contains ''failed'' (lower message) \<or> contains ''cannot edit'' (lower message) \<or>
      contains ''only generate'' (lower message) \<or> contains ''I cannot'' message)"

text \<open>
  \<^verbatim>\<open>generate_images\<close>. \<open>fresh\<close> is \<^verbatim>\<open>str(uuid.uuid4())\<close>. \<open>runner\<close> is the agent run: given
  the prompt and the ledger, its outcome and the ledger as its tools leave it. \<open>env\<close> is
  the uploads directory as the listings made after the run find it. Failing to create
  the session is ignored by the source and has no part here.
\<close>

definition generate_images ::
  "GenerateRequest \<Rightarrow> string \<Rightarrow> (string \<Rightarrow> SessionMemory \<Rightarrow> agent_run \<times> SessionMemory) \<Rightarrow>
   (nat \<Rightarrow> listing option) \<Rightarrow> SessionMemory \<Rightarrow>
   ((http_error + GenerateResponse) \<times> SessionMemory) option" where
  "generate_images request fresh runner env memory =
     (case request of GenerateRequest prompt request_session_id \<Rightarrow>
        let session_id = (if truthy request_session_id then the request_session_id else fresh)
        in (case runner prompt memory of
             (AgentRaised e, memory1) \<Rightarrow>
               Some (Inl (HTTPException 500 (''Error generating images: '' @ e)), memory1)
           | (AgentEvents events, memory1) \<Rightarrow>
               let message = agent_message events
               in (case wait_for_images env [] 4 90 2 of
                     None \<Rightarrow> None
                   | Some ([], k) \<Rightarrow>
                       let all_files = list_images (env (Suc k)) [] 100;
                           error_msg = ''No images generated. '' @
                             (if all_files \<noteq> []
                              then ''Found '' @ str_nat (length all_files) @
                                   '' other image(s) in uploads directory.''
                              else ''No PNG files found in uploads directory.'')
                       in Some (Inl (HTTPException 500 error_msg), memory1)
                   | Some (first_file # more_files, k) \<Rightarrow>
                       let filenames = first_file # more_files;
                           memory2 = set_last_generated first_file memory1;
                           message1 =
                             (if message \<noteq> [] \<and> generate_error_indicator message
                              then ''Successfully generated '' @ str_nat (length filenames) @ '' image(s)''
                              else if message = []
                              then ''Successfully generated '' @ str_nat (length filenames) @ '' image(s)''
                              else message)
                       in Some (Inr (GenerateResponse True message1 (py_take 4 filenames) session_id),
                                memory2))))"

text \<open>Lines 254 to 258: the image an edit request applies to.\<close>

definition image_to_edit :: "EditRequest \<Rightarrow> SessionMemory \<Rightarrow> string option" where
  "image_to_edit request memory =
     (case request of EditRequest edit_prompt image_filename request_session_id \<Rightarrow>
        py_or image_filename (py_or (get_last_generated memory) (get_most_recent memory)))"

text \<open>\<^verbatim>\<open>edit_image\<close>, with the parameters of \<^verbatim>\<open>generate_images\<close>.\<close>

definition edit_image ::
  "EditRequest \<Rightarrow> string \<Rightarrow> (string \<Rightarrow> SessionMemory \<Rightarrow> agent_run \<times> SessionMemory) \<Rightarrow>
   (nat \<Rightarrow> listing option) \<Rightarrow> SessionMemory \<Rightarrow>
   ((http_error + EditResponse) \<times> SessionMemory) option" where
  "edit_image request fresh runner env memory =
     (case request of EditRequest edit_prompt image_filename request_session_id \<Rightarrow>
        if \<not> truthy (image_to_edit request memory)
        then Some (Inl (HTTPException 400
               ''No image available to edit. Please provide image_filename or generate an image first.''),
               memory)
        else
          let target = the (image_to_edit request memory);
              session_id = (if truthy request_session_id then the request_session_id else fresh);
              prompt = ''Please edit the image '' @ target @ ''. Edit request: '' @ edit_prompt
          in (case runner prompt memory of
               (AgentRaised e, memory1) \<Rightarrow>
                 Some (Inl (HTTPException 500 (''Error editing image: '' @ e)), memory1)
             | (AgentEvents events, memory1) \<Rightarrow>
                 let message = agent_message events
                 in (case wait_for_images env ''edited_'' 1 90 2 of
                       None \<Rightarrow> None
                     | Some ([], k) \<Rightarrow>
                         Some (Inl (HTTPException 500
                           ''Edited image not found. The agent may still be processing.''), memory1)
                     | Some (filename # more_files, k) \<Rightarrow>
                         let memory2 = set_last_edited filename memory1;
                             message1 =
                               (if filename \<noteq> []
                                then (if message \<noteq> [] \<and> edit_error_indicator message
                                      then ''Image edited successfully''
                                      else if message = [] then ''Image edited successfully''
                                      else message)
                                else message)
                         in Some (Inr (EditResponse True message1 filename session_id), memory2))))"

section \<open>Concrete inputs\<close>

text \<open>
  Twelve ledger insertions: eleven distinct names, which evicts the first, and then the
  first name again.
\<close>

definition evict_then_reinsert :: "ledger_op list" where
  "evict_then_reinsert =
     map SetGenerated
       [''a1'', ''a2'', ''a3'', ''a4'', ''a5'', ''a6'', ''a7'', ''a8'', ''a9'', ''a10'', ''a11'', ''a1'']"

text \<open>
  Two white quadrants: 13 by 13 with one black pixel at \<open>(6, 6)\<close>, and 14 by 14 with
  black pixels at \<open>(6, 6)\<close> and \<open>(7, 7)\<close>.
\<close>

definition single_pixel_quadrant :: image where
  "single_pixel_quadrant =
     \<lparr>width = 13, height = 13,
      pixels = (\<lambda>x y. if x = 6 \<and> y = 6 then (0, 0, 0) else (255, 255, 255))\<rparr>"

definition two_pixel_quadrant :: image where
  "two_pixel_quadrant =
     \<lparr>width = 14, height = 14,
      pixels = (\<lambda>x y. if (x = 6 \<and> y = 6) \<or> (x = 7 \<and> y = 7) then (0, 0, 0) else (255, 255, 255))\<rparr>"

text \<open>
  A 4 by 4 composite of four solid colours, none of them white, and an uploads directory
  that holds it as \<^verbatim>\<open>grid.png\<close>.
\<close>

definition four_colour_grid :: image where
  "four_colour_grid =
     \<lparr>width = 4, height = 4,
      pixels = (\<lambda>x y. if y < 2 then (if x < 2 then (200, 0, 0) else (0, 200, 0))
                        else (if x < 2 then (0, 0, 200) else (200, 200, 0)))\<rparr>"

definition grid_only :: uploads where
  "grid_only = Map.empty(''uploads/grid.png'' \<mapsto> Encoded four_colour_grid)"

text \<open>
  Directories over time: one that holds \<^verbatim>\<open>a.png\<close> from the start; one where it appears at
  the fourth listing; one that holds files left by earlier requests; one that stays empty.
  And an agent run that emits no event and leaves the ledger alone.
\<close>

definition one_png_listing :: "nat \<Rightarrow> listing option" where
  "one_png_listing k = Some [(''a.png'', 1)]"

definition late_listing :: "nat \<Rightarrow> listing option" where
  "late_listing k = (if k < 3 then Some [] else Some [(''a.png'', 1)])"

definition leftover_listing :: "nat \<Rightarrow> listing option" where
  "leftover_listing k = Some [(''image_old_1.png'', 3), (''edited_7_x.png'', 9), (''notes.txt'', 12)]"

definition silent_runner :: "string \<Rightarrow> SessionMemory \<Rightarrow> agent_run \<times> SessionMemory" where
  "silent_runner prompt memory = (AgentEvents [], memory)"

definition empty_listing :: "nat \<Rightarrow> listing option" where
  "empty_listing k = Some []"

text \<open>
  Agent runs whose final message is a refusal, an error text, and a quota notice; and a
  directory that holds one edited file.
\<close>

definition refusing_runner :: "string \<Rightarrow> SessionMemory \<Rightarrow> agent_run \<times> SessionMemory" where
  "refusing_runner prompt memory = (AgentEvents [Event True [''I cannot generate that'']], memory)"

definition error_runner :: "string \<Rightarrow> SessionMemory \<Rightarrow> agent_run \<times> SessionMemory" where
  "error_runner prompt memory = (AgentEvents [Event True [''Error: cannot edit'']], memory)"

definition quota_runner :: "string \<Rightarrow> SessionMemory \<Rightarrow> agent_run \<times> SessionMemory" where
  "quota_runner prompt memory = (AgentEvents [Event True [''Quota exceeded, try later'']], memory)"

definition edited_png_listing :: "nat \<Rightarrow> listing option" where
  "edited_png_listing k = Some [(''edited_1_x.png'', 1)]"

text \<open>
  A disk on which every save succeeds, an empty upload directory, and a \<^verbatim>\<open>mimetypes\<close> table
  that answers \<^verbatim>\<open>image/png\<close>. Two directories as the edit endpoint's poll lists them: one
  holding two edited files next to a newer generated one, and one whose only edited file is
  a \<^verbatim>\<open>.jpg\<close>.
\<close>

definition always_saves :: "string \<Rightarrow> image \<Rightarrow> string option" where
  "always_saves filepath img = None"

definition no_files :: uploads where
  "no_files = Map.empty"

definition png_guess :: "string \<Rightarrow> string option" where
  "png_guess filepath = Some ''image/png''"

definition edit_directory :: "nat \<Rightarrow> listing option" where
  "edit_directory k =
     Some [(''image_old_1.png'', 8), (''edited_20240101_120000_grid.png'', 5),
           (''edited_20231231_235959_grid.png'', 2)]"

definition unedited_directory :: "nat \<Rightarrow> listing option" where
  "unedited_directory k = Some [(''image_old_1.png'', 8), (''edited_20240101_120000_p.jpg'', 9)]"

chapter \<open>Properties\<close>

section \<open>The recency ledger\<close>

lemma recent_set_last_generated:
  "recent_images (set_last_generated f m) =
     (if f \<in> set (recent_images m) then recent_images m else take 10 (f # recent_images m))"
  by (simp add: set_last_generated_def Let_def)

lemma recent_set_last_edited:
  "recent_images (set_last_edited f m) =
     (if f \<in> set (recent_images m) then recent_images m else take 10 (f # recent_images m))"
  by (simp add: set_last_edited_def Let_def)

lemma recent_apply_ledger_op:
  "recent_images (apply_ledger_op m x) =
     (if op_name x \<in> set (recent_images m) then recent_images m
      else take 10 (op_name x # recent_images m))"
  by (cases x) (simp_all add: recent_set_last_generated recent_set_last_edited)

lemma run_ledger_ops_snoc:
  "run_ledger_ops (ops @ [x]) m = apply_ledger_op (run_ledger_ops ops m) x"
  by (simp add: run_ledger_ops_def)

lemma run_ledger_ops_Nil: "run_ledger_ops [] m = m"
  by (simp add: run_ledger_ops_def)

text \<open>Capacity and absence of duplicates are kept by every run of insertions.\<close>

lemma recent_bounded_distinct:
  "length (recent_images m) \<le> 10 \<Longrightarrow> distinct (recent_images m) \<Longrightarrow>
   length (recent_images (run_ledger_ops ops m)) \<le> 10 \<and>
   distinct (recent_images (run_ledger_ops ops m))"
proof (induction ops rule: rev_induct)
  case Nil
  then show ?case by (simp add: run_ledger_ops_Nil)
next
  case (snoc x ops)
  then have "length (recent_images (run_ledger_ops ops m)) \<le> 10"
    and d: "distinct (recent_images (run_ledger_ops ops m))" by simp_all
  then show ?case
    using distinct_take [of "recent_images (run_ledger_ops ops m)" 9]
    by (auto simp: run_ledger_ops_snoc recent_apply_ledger_op dest: in_set_takeD)
qed

text \<open>
  As long as every name that is inserted again is still among the ten most recently
  first-inserted ones, the list is exactly those ten, newest first:
  \<open>remdups (rev ns)\<close> lists the distinct names of \<open>ns\<close> by first insertion, latest first.
\<close>

lemma recent_first_inserted:
  "(\<forall>ys x zs. map op_name ops = ys @ x # zs \<and> x \<in> set ys \<longrightarrow>
      x \<in> set (take 10 (remdups (rev ys)))) \<Longrightarrow>
   recent_images (run_ledger_ops ops init_memory) = take 10 (remdups (rev (map op_name ops)))"
proof (induction ops rule: rev_induct)
  case Nil
  then show ?case by (simp add: run_ledger_ops_Nil init_memory_def)
next
  case (snoc x ops)
  have pre: "\<forall>ys y zs. map op_name ops = ys @ y # zs \<and> y \<in> set ys \<longrightarrow>
      y \<in> set (take 10 (remdups (rev ys)))"
  proof (intro allI impI)
    fix ys y zs assume a: "map op_name ops = ys @ y # zs \<and> y \<in> set ys"
    then have "map op_name (ops @ [x]) = ys @ y # (zs @ [op_name x])" by simp
    with a snoc.prems show "y \<in> set (take 10 (remdups (rev ys)))" by blast
  qed
  have ih: "recent_images (run_ledger_ops ops init_memory) =
      take 10 (remdups (rev (map op_name ops)))"
    using snoc.IH pre by blast
  show ?case
  proof (cases "op_name x \<in> set (map op_name ops)")
    case True
    have "map op_name (ops @ [x]) = map op_name ops @ op_name x # []" by simp
    with True snoc.prems have "op_name x \<in> set (take 10 (remdups (rev (map op_name ops))))"
      by blast
    with True show ?thesis
      by (simp add: run_ledger_ops_snoc recent_apply_ledger_op ih)
  next
    case False
    then have "op_name x \<notin> set (take 10 (remdups (rev (map op_name ops))))"
      by (auto dest: in_set_takeD)
    with False show ?thesis
      by (simp add: run_ledger_ops_snoc recent_apply_ledger_op ih take_Cons')
  qed
qed

text \<open>
  Claim C6, as amended. Inserting a name that is in the recent list leaves the list as
  it is (no duplicate, no reordering), through either setter. After any run of insertions
  from the empty ledger the list holds at most 10 names, all distinct. It is the 10 most
  recently first-inserted distinct names, newest first, provided no name is inserted
  again after it has dropped out of those ten; a name inserted again after its eviction
  re-enters at the front (the counterexample below).
\<close>

theorem recency_ledger_insertions:
  "(name \<in> set (recent_images m) \<longrightarrow>
      recent_images (set_last_generated name m) = recent_images m \<and>
      recent_images (set_last_edited name m) = recent_images m) \<and>
   length (recent_images (run_ledger_ops ops init_memory)) \<le> 10 \<and>
   distinct (recent_images (run_ledger_ops ops init_memory)) \<and>
   ((\<forall>ys x zs. map op_name ops = ys @ x # zs \<and> x \<in> set ys \<longrightarrow>
        x \<in> set (take 10 (remdups (rev ys)))) \<longrightarrow>
      recent_images (run_ledger_ops ops init_memory) = take 10 (remdups (rev (map op_name ops))))"
  using recent_bounded_distinct [of init_memory ops] recent_first_inserted [of ops]
  by (simp add: recent_set_last_generated recent_set_last_edited init_memory_def)

text \<open>
  The theorem at a ledger holding \<open>b, a\<close> and at the insertions \<open>a, a, b\<close>: the second
  \<open>a\<close> changes nothing, and the list ends as \<open>b, a\<close>.
\<close>

theorem recency_ledger_insertions_witness:
  "recent_images (set_last_generated ''a''
      \<lparr>last_generated = None, last_edited = None, recent_images = [''b'', ''a'']\<rparr>) = [''b'', ''a''] \<and>
   recent_images (set_last_edited ''a''
      \<lparr>last_generated = None, last_edited = None, recent_images = [''b'', ''a'']\<rparr>) = [''b'', ''a''] \<and>
   recent_images (run_ledger_ops [SetGenerated ''a'', SetGenerated ''a'', SetEdited ''b''] init_memory)
     = [''b'', ''a'']"
proof -
  have h: "\<forall>ys x zs. map op_name [SetGenerated ''a'', SetGenerated ''a'', SetEdited ''b''] = ys @ x # zs
        \<and> x \<in> set ys \<longrightarrow> x \<in> set (take 10 (remdups (rev ys)))"
    by (auto simp: Cons_eq_append_conv)
  show ?thesis
    using h recency_ledger_insertions [of "''a''"
        "\<lparr>last_generated = None, last_edited = None, recent_images = [''b'', ''a'']\<rparr>"
        "[SetGenerated ''a'', SetGenerated ''a'', SetEdited ''b'']"]
    by simp
qed

text \<open>
  Claim C6 as stated fails at \<open>evict_then_reinsert\<close>: the list then starts with \<open>a1\<close>,
  the name whose first insertion is the oldest of all, which is not one of the 10 most
  recently first-inserted names \<open>a11, ..., a2\<close>.
\<close>

theorem recency_ledger_reinsertion_counterexample:
  "\<not> set (recent_images (run_ledger_ops evict_then_reinsert init_memory))
      \<subseteq> set (take 10 (remdups (rev (map op_name evict_then_reinsert))))"
  by (simp add: evict_then_reinsert_def run_ledger_ops_def init_memory_def
      set_last_generated_def Let_def)

section \<open>Implicit edit target\<close>

lemma image_to_edit_last_generated:
  "\<not> truthy image_filename \<Longrightarrow> last_generated m = Some g \<Longrightarrow> g \<noteq> [] \<Longrightarrow>
   image_to_edit (EditRequest edit_prompt image_filename sid) m = Some g"
  by (simp add: image_to_edit_def py_or_def truthy_def get_last_generated_def)

lemma image_to_edit_most_recent:
  "\<not> truthy image_filename \<Longrightarrow> \<not> truthy (last_generated m) \<Longrightarrow> recent_images m = r # rs \<Longrightarrow>
   image_to_edit (EditRequest edit_prompt image_filename sid) m = Some r"
  by (simp add: image_to_edit_def py_or_def get_last_generated_def get_most_recent_def)

lemma edit_image_cong_target:
  "image_to_edit (EditRequest edit_prompt a sid) m = image_to_edit (EditRequest edit_prompt b sid) m \<Longrightarrow>
   edit_image (EditRequest edit_prompt a sid) fresh runner env m =
   edit_image (EditRequest edit_prompt b sid) fresh runner env m"
  by (simp add: edit_image_def)

text \<open>
  Claim C7. When an edit names no source (\<open>None\<close> or the empty string), the target is the
  ledger's \<^verbatim>\<open>last_generated\<close> when that is set, whatever the recent list and
  \<^verbatim>\<open>last_edited\<close> hold, so an edited image never displaces a generated one; otherwise it is
  the head of the recent list. Both the endpoint (\<open>image_to_edit\<close>) and the tool wrapper
  (\<open>wrapper_image_path\<close>) resolve it so, and the endpoint then behaves as if the request
  had named that image. Artifact names are not empty (Python's \<^verbatim>\<open>or\<close> reads an empty
  name as absent).
\<close>

theorem implicit_edit_target:
  assumes "\<not> truthy image_filename"
  shows "(last_generated m = Some g \<and> g \<noteq> [] \<longrightarrow>
            image_to_edit (EditRequest edit_prompt image_filename sid) m = Some g \<and>
            wrapper_image_path image_filename m = Some g \<and>
            edit_image (EditRequest edit_prompt image_filename sid) fresh runner env m =
              edit_image (EditRequest edit_prompt (Some g) sid) fresh runner env m) \<and>
         (\<not> truthy (last_generated m) \<and> recent_images m = r # rs \<and> r \<noteq> [] \<longrightarrow>
            image_to_edit (EditRequest edit_prompt image_filename sid) m = Some r \<and>
            wrapper_image_path image_filename m = Some r \<and>
            edit_image (EditRequest edit_prompt image_filename sid) fresh runner env m =
              edit_image (EditRequest edit_prompt (Some r) sid) fresh runner env m)"
proof (intro conjI impI)
  assume a: "last_generated m = Some g \<and> g \<noteq> []"
  show t: "image_to_edit (EditRequest edit_prompt image_filename sid) m = Some g"
    using assms a by (simp add: image_to_edit_last_generated)
  show "wrapper_image_path image_filename m = Some g"
    using assms a by (simp add: wrapper_image_path_def Let_def truthy_def get_last_generated_def)
  have "image_to_edit (EditRequest edit_prompt (Some g) sid) m = Some g"
    using a by (simp add: image_to_edit_def py_or_def truthy_def)
  with t show "edit_image (EditRequest edit_prompt image_filename sid) fresh runner env m =
      edit_image (EditRequest edit_prompt (Some g) sid) fresh runner env m"
    by (simp add: edit_image_cong_target)
next
  assume a: "\<not> truthy (last_generated m) \<and> recent_images m = r # rs \<and> r \<noteq> []"
  show t: "image_to_edit (EditRequest edit_prompt image_filename sid) m = Some r"
    using assms a by (simp add: image_to_edit_most_recent)
  show "wrapper_image_path image_filename m = Some r"
    using assms a
    by (simp add: wrapper_image_path_def Let_def truthy_def get_last_generated_def get_most_recent_def)
  have "image_to_edit (EditRequest edit_prompt (Some r) sid) m = Some r"
    using a by (simp add: image_to_edit_def py_or_def truthy_def)
  with t show "edit_image (EditRequest edit_prompt image_filename sid) fresh runner env m =
      edit_image (EditRequest edit_prompt (Some r) sid) fresh runner env m"
    by (simp add: edit_image_cong_target)
qed

text \<open>
  The theorem at a ledger where an image was generated and then edited (the edited image
  is the head of the recent list, the target is the generated one), and at a ledger that
  holds an edited image only.
\<close>

theorem implicit_edit_target_witness:
  "image_to_edit (EditRequest ''make it red'' None None)
     (run_ledger_ops [SetGenerated ''g.png'', SetEdited ''edited_g.png''] init_memory) = Some ''g.png'' \<and>
   wrapper_image_path None
     (run_ledger_ops [SetGenerated ''g.png'', SetEdited ''edited_g.png''] init_memory) = Some ''g.png'' \<and>
   recent_images (run_ledger_ops [SetGenerated ''g.png'', SetEdited ''edited_g.png''] init_memory)
     = [''edited_g.png'', ''g.png''] \<and>
   image_to_edit (EditRequest ''make it red'' None None)
     (run_ledger_ops [SetEdited ''e.png''] init_memory) = Some ''e.png'' \<and>
   wrapper_image_path None (run_ledger_ops [SetEdited ''e.png''] init_memory) = Some ''e.png''"
proof -
  have n: "\<not> truthy None" by (simp add: truthy_def)
  have m1: "run_ledger_ops [SetGenerated ''g.png'', SetEdited ''edited_g.png''] init_memory =
      \<lparr>last_generated = Some ''g.png'', last_edited = Some ''edited_g.png'',
       recent_images = [''edited_g.png'', ''g.png'']\<rparr>"
    by (simp add: run_ledger_ops_def init_memory_def set_last_generated_def set_last_edited_def Let_def)
  have m2: "run_ledger_ops [SetEdited ''e.png''] init_memory =
      \<lparr>last_generated = None, last_edited = Some ''e.png'', recent_images = [''e.png'']\<rparr>"
    by (simp add: run_ledger_ops_def init_memory_def set_last_edited_def Let_def)
  show ?thesis
    using implicit_edit_target [OF n, where
        m = "run_ledger_ops [SetGenerated ''g.png'', SetEdited ''edited_g.png''] init_memory"
        and g = "''g.png''" and edit_prompt = "''make it red''" and sid = None]
      implicit_edit_target [OF n, where m = "run_ledger_ops [SetEdited ''e.png''] init_memory"
        and r = "''e.png''" and rs = "[]" and edit_prompt = "''make it red''" and sid = None]
    by (simp add: m1 m2 truthy_def)
qed

section \<open>Border trim\<close>

text \<open>The nested loops visit the coordinates row by row; the scan is one fold over them.\<close>

lemma fold_scan_flat:
  "fold (\<lambda>y. fold (scan_pixel img th y) xs) ys bb =
   fold (\<lambda>(x, y). scan_pixel img th y x) (concat (map (\<lambda>y. map (\<lambda>x. (x, y)) xs) ys)) bb"
  by (induction ys arbitrary: bb) (simp_all add: fold_map comp_def)

lemma fold_scan_coords:
  "fold (\<lambda>(x, y). scan_pixel img th y x) cs (a, b, c, d) =
     (fold min (map fst (filter (\<lambda>(x, y). is_content th (pixels img x y)) cs)) a,
      fold min (map snd (filter (\<lambda>(x, y). is_content th (pixels img x y)) cs)) b,
      fold max (map fst (filter (\<lambda>(x, y). is_content th (pixels img x y)) cs)) c,
      fold max (map snd (filter (\<lambda>(x, y). is_content th (pixels img x y)) cs)) d)"
  by (induction cs arbitrary: a b c d) (auto simp: scan_pixel_def min.commute max.commute)

lemma fold_min_Min: "fold min xs (a::int) = Min (insert a (set xs))"
  using Min.set_eq_fold [of a xs] by simp

lemma fold_max_Max: "fold max xs (a::int) = Max (insert a (set xs))"
  using Max.set_eq_fold [of a xs] by simp

lemma set_py_range: "set (py_range n) = {0..<int n}"
  by (auto simp: py_range_def image_int_atLeastLessThan)

lemma set_content_coords:
  "set (filter (\<lambda>(x, y). is_content th (pixels img x y))
         (concat (map (\<lambda>y. map (\<lambda>x. (x, y)) (py_range (width img))) (py_range (height img)))))
   = {(x, y). content_pixel img th x y}"
  by (auto simp: set_py_range content_pixel_def image_iff)

text \<open>
  What the scan computes: the extreme coordinates of the content pixels, together with
  the start values \<^verbatim>\<open>width\<close>, \<^verbatim>\<open>height\<close>, \<open>0\<close>, \<open>0\<close>.
\<close>

lemma content_bounds_extremes:
  "content_bounds img th =
     (Min (insert (int (width img)) (fst ` {(x, y). content_pixel img th x y})),
      Min (insert (int (height img)) (snd ` {(x, y). content_pixel img th x y})),
      Max (insert 0 (fst ` {(x, y). content_pixel img th x y})),
      Max (insert 0 (snd ` {(x, y). content_pixel img th x y})))"
  unfolding content_bounds_def fold_scan_flat fold_scan_coords fold_min_Min fold_max_Max
    set_map set_content_coords ..

lemma finite_content: "finite {(x, y). content_pixel img th x y}"
proof -
  have "{(x, y). content_pixel img th x y} \<subseteq> {0..<int (width img)} \<times> {0..<int (height img)}"
    by (auto simp: content_pixel_def)
  then show ?thesis by (rule finite_subset) simp
qed


lemma Min_insert_above:
  fixes X :: "int set"
  assumes "finite X" and "X \<noteq> {}" and "\<forall>a\<in>X. a < w"
  shows "Min (insert w X) = Min X"
proof -
  have "Min X \<in> X" using assms(1,2) by (rule Min_in)
  with assms(3) have "Min X < w" by blast
  moreover have "Min (insert w X) = min w (Min X)" using assms(1,2) by (rule Min_insert)
  ultimately show ?thesis by linarith
qed

lemma Max_insert_below:
  fixes X :: "int set"
  assumes "finite X" and "X \<noteq> {}" and "\<forall>a\<in>X. w \<le> a"
  shows "Max (insert w X) = Max X"
proof -
  have "Max X \<in> X" using assms(1,2) by (rule Max_in)
  with assms(3) have "w \<le> Max X" by blast
  moreover have "Max (insert w X) = max w (Max X)" using assms(1,2) by (rule Max_insert)
  ultimately show ?thesis by linarith
qed

lemma fst_content_Min:
  assumes "content_pixel img th x y"
  shows "Min (insert (int (width img)) (fst ` {(x, y). content_pixel img th x y})) =
           Min (fst ` {(x, y). content_pixel img th x y})"
    and "Max (insert 0 (fst ` {(x, y). content_pixel img th x y})) =
           Max (fst ` {(x, y). content_pixel img th x y})"
proof -
  let ?X = "fst ` {(x, y). content_pixel img th x y}"
  have fin: "finite ?X" using finite_content by simp
  have "x \<in> ?X" using assms by (auto simp: image_iff)
  then have ne: "?X \<noteq> {}" by blast
  have b1: "\<forall>a\<in>?X. a < int (width img)" by (auto simp: content_pixel_def)
  have b0: "\<forall>a\<in>?X. 0 \<le> a" by (auto simp: content_pixel_def)
  show "Min (insert (int (width img)) ?X) = Min ?X"
    using fin ne b1 by (rule Min_insert_above)
  show "Max (insert 0 ?X) = Max ?X"
    using fin ne b0 by (rule Max_insert_below)
qed

lemma snd_content_Min:
  assumes "content_pixel img th x y"
  shows "Min (insert (int (height img)) (snd ` {(x, y). content_pixel img th x y})) =
           Min (snd ` {(x, y). content_pixel img th x y})"
    and "Max (insert 0 (snd ` {(x, y). content_pixel img th x y})) =
           Max (snd ` {(x, y). content_pixel img th x y})"
proof -
  let ?Y = "snd ` {(x, y). content_pixel img th x y}"
  have fin: "finite ?Y" using finite_content by simp
  have "y \<in> ?Y" using assms by (auto simp: image_iff)
  then have ne: "?Y \<noteq> {}" by blast
  have b1: "\<forall>a\<in>?Y. a < int (height img)" by (auto simp: content_pixel_def)
  have b0: "\<forall>a\<in>?Y. 0 \<le> a" by (auto simp: content_pixel_def)
  show "Min (insert (int (height img)) ?Y) = Min ?Y"
    using fin ne b1 by (rule Min_insert_above)
  show "Max (insert 0 ?Y) = Max ?Y"
    using fin ne b0 by (rule Max_insert_below)
qed

lemma content_bounds_blank:
  assumes "\<forall>x y. \<not> content_pixel img th x y"
  shows "content_bounds img th = (int (width img), int (height img), 0, 0)"
proof -
  have "{(x, y). content_pixel img th x y} = {}" using assms by auto
  then show ?thesis by (simp add: content_bounds_extremes)
qed

lemma content_bounds_content:
  assumes "content_pixel img th x y"
  shows "content_bounds img th =
     (Min (fst ` {(x, y). content_pixel img th x y}), Min (snd ` {(x, y). content_pixel img th x y}),
      Max (fst ` {(x, y). content_pixel img th x y}), Max (snd ` {(x, y). content_pixel img th x y}))"
  by (simp only: content_bounds_extremes fst_content_Min [OF assms] snd_content_Min [OF assms])

lemma single_column_bounds:
  assumes "\<forall>x y x' y'. content_pixel img th x y \<and> content_pixel img th x' y' \<longrightarrow> x = x'"
  shows "case content_bounds img th of (min_x, min_y, max_x, max_y) \<Rightarrow> max_x \<le> min_x"
proof (cases "\<exists>x y. content_pixel img th x y")
  case False
  then have "\<forall>x y. \<not> content_pixel img th x y" by blast
  then have "content_bounds img th = (int (width img), int (height img), 0, 0)"
    by (rule content_bounds_blank)
  then show ?thesis by (simp only: prod.case of_nat_0_le_iff)
next
  case True
  then obtain c r where cr: "content_pixel img th c r" by blast
  have X: "fst ` {(x, y). content_pixel img th x y} = {c}"
  proof (intro equalityI subsetI)
    fix a assume "a \<in> fst ` {(x, y). content_pixel img th x y}"
    then obtain b where "content_pixel img th a b" by auto
    with assms cr have "a = c" by blast
    then show "a \<in> {c}" by simp
  next
    fix a assume "a \<in> {c}"
    then have "(a, r) \<in> {(x, y). content_pixel img th x y}" using cr by simp
    then show "a \<in> fst ` {(x, y). content_pixel img th x y}" by force
  qed
  show ?thesis
    unfolding content_bounds_content [OF cr] X
    by (simp only: prod.case Min_singleton Max_singleton order_refl)
qed

lemma single_row_bounds:
  assumes "\<forall>x y x' y'. content_pixel img th x y \<and> content_pixel img th x' y' \<longrightarrow> y = y'"
  shows "case content_bounds img th of (min_x, min_y, max_x, max_y) \<Rightarrow> max_y \<le> min_y"
proof (cases "\<exists>x y. content_pixel img th x y")
  case False
  then have "\<forall>x y. \<not> content_pixel img th x y" by blast
  then have "content_bounds img th = (int (width img), int (height img), 0, 0)"
    by (rule content_bounds_blank)
  then show ?thesis by (simp only: prod.case of_nat_0_le_iff)
next
  case True
  then obtain c r where cr: "content_pixel img th c r" by blast
  have Y: "snd ` {(x, y). content_pixel img th x y} = {r}"
  proof (intro equalityI subsetI)
    fix b assume "b \<in> snd ` {(x, y). content_pixel img th x y}"
    then obtain a where "content_pixel img th a b" by auto
    with assms cr have "b = r" by blast
    then show "b \<in> {r}" by simp
  next
    fix b assume "b \<in> {r}"
    then have "(c, b) \<in> {(x, y). content_pixel img th x y}" using cr by simp
    then show "b \<in> snd ` {(x, y). content_pixel img th x y}" by force
  qed
  show ?thesis
    unfolding content_bounds_content [OF cr] Y
    by (simp only: prod.case Min_singleton Max_singleton order_refl)
qed

text \<open>
  Claim C9. When all content pixels lie in one column, or all in one row, the guard of
  line 54 holds and the image is returned as it is. This covers the blank image (no
  content pixel), a single content pixel, and any content confined to one row or column.
\<close>

theorem trim_skipped_on_single_row_or_column:
  assumes "(\<forall>x y x' y'. content_pixel img th x y \<and> content_pixel img th x' y' \<longrightarrow> x = x') \<or>
           (\<forall>x y x' y'. content_pixel img th x y \<and> content_pixel img th x' y' \<longrightarrow> y = y')"
  shows "remove_white_borders img th = img"
proof -
  obtain min_x min_y max_x max_y where b: "content_bounds img th = (min_x, min_y, max_x, max_y)"
    by (cases "content_bounds img th") auto
  from assms have "max_x \<le> min_x \<or> max_y \<le> min_y"
  proof
    assume "\<forall>x y x' y'. content_pixel img th x y \<and> content_pixel img th x' y' \<longrightarrow> x = x'"
    then show ?thesis using single_column_bounds [of img th] b by simp
  next
    assume "\<forall>x y x' y'. content_pixel img th x y \<and> content_pixel img th x' y' \<longrightarrow> y = y'"
    then show ?thesis using single_row_bounds [of img th] b by simp
  qed
  then show ?thesis by (auto simp: remove_white_borders_def b)
qed

lemma content_single_pixel_quadrant:
  "content_pixel single_pixel_quadrant 240 x y = (x = 6 \<and> y = 6)"
  by (simp add: content_pixel_def single_pixel_quadrant_def is_content_def)

text \<open>The theorem at the quadrant with exactly one content pixel.\<close>

theorem trim_skipped_on_single_row_or_column_witness:
  "content_pixel single_pixel_quadrant 240 6 6 \<and>
   remove_white_borders single_pixel_quadrant 240 = single_pixel_quadrant"
proof -
  have h: "\<forall>x y x' y'. content_pixel single_pixel_quadrant 240 x y \<and>
      content_pixel single_pixel_quadrant 240 x' y' \<longrightarrow> x = x'"
    by (simp add: content_single_pixel_quadrant)
  have c: "content_pixel single_pixel_quadrant 240 6 6"
    by (simp add: content_single_pixel_quadrant)
  have "remove_white_borders single_pixel_quadrant 240 = single_pixel_quadrant"
    using h by (rule trim_skipped_on_single_row_or_column [OF disjI1])
  with c show ?thesis by (rule conjI)
qed

text \<open>
  Content in at least two columns and two rows: the crop box runs from 5 below the least
  content coordinate to 5 above the greatest, clamped. The upper bounds of a crop box are
  exclusive, so the last column kept is \<open>max_x + 4\<close> and the last row \<open>max_y + 4\<close>.
\<close>

lemma remove_white_borders_trims:
  assumes "content_pixel img th x1 y1" and "content_pixel img th x2 y2"
    and "x1 \<noteq> x2" and "content_pixel img th x3 y3" and "content_pixel img th x4 y4" and "y3 \<noteq> y4"
  shows "remove_white_borders img th =
     crop img
       (max 0 (Min (fst ` {(x, y). content_pixel img th x y}) - 5),
        max 0 (Min (snd ` {(x, y). content_pixel img th x y}) - 5),
        min (int (width img)) (Max (fst ` {(x, y). content_pixel img th x y}) + 5),
        min (int (height img)) (Max (snd ` {(x, y). content_pixel img th x y}) + 5))"
proof -
  let ?C = "{(x, y). content_pixel img th x y}"
  have fin: "finite (fst ` ?C)" "finite (snd ` ?C)" using finite_content by simp_all
  have "x1 \<in> fst ` ?C" "x2 \<in> fst ` ?C" using assms by (auto simp: image_iff)
  then have "Min (fst ` ?C) \<le> min x1 x2" "max x1 x2 \<le> Max (fst ` ?C)"
    using fin by (simp_all add: Min_le Max_ge min_def max_def)
  then have x: "Min (fst ` ?C) < Max (fst ` ?C)" using assms(3) by (simp add: min_def max_def split: if_splits)
  have "y3 \<in> snd ` ?C" "y4 \<in> snd ` ?C" using assms by (auto simp: image_iff)
  then have "Min (snd ` ?C) \<le> min y3 y4" "max y3 y4 \<le> Max (snd ` ?C)"
    using fin by (simp_all add: Min_le Max_ge min_def max_def)
  then have y: "Min (snd ` ?C) < Max (snd ` ?C)" using assms(6) by (simp add: min_def max_def split: if_splits)
  show ?thesis
    using x y by (simp add: remove_white_borders_def content_bounds_content [OF assms(1)] Let_def)
qed

lemma content_bounds_single_pixel: "content_bounds single_pixel_quadrant 240 = (6, 6, 6, 6)"
  by code_simp

lemma content_bounds_two_pixel: "content_bounds two_pixel_quadrant 240 = (6, 6, 7, 7)"
  by code_simp

text \<open>
  Claim C4, evaluated. The 13 by 13 quadrant with one content pixel at \<open>(6, 6)\<close> comes
  back whole, 6 pixels beyond the content on every side. For the 14 by 14 quadrant with
  content in columns and rows 6 to 7 the crop box is \<open>(1, 1, 12, 12)\<close>: columns 1 to 11,
  that is 5 columns left of the content and 4 right of it (likewise 5 rows above and 4
  below), 11 wide where 5 pixels on each side would give 12.
\<close>

theorem border_trim_padding_evaluated:
  "content_pixel single_pixel_quadrant 240 6 6 \<and>
   remove_white_borders single_pixel_quadrant 240 = single_pixel_quadrant \<and>
   width (remove_white_borders single_pixel_quadrant 240) = 13 \<and>
   remove_white_borders two_pixel_quadrant 240 = crop two_pixel_quadrant (1, 1, 12, 12) \<and>
   width (remove_white_borders two_pixel_quadrant 240) = 11 \<and>
   height (remove_white_borders two_pixel_quadrant 240) = 11"
proof -
  have a: "remove_white_borders single_pixel_quadrant 240 = single_pixel_quadrant"
    by (simp add: remove_white_borders_def content_bounds_single_pixel)
  have w1: "width single_pixel_quadrant = 13" by (simp add: single_pixel_quadrant_def)
  have w2: "width two_pixel_quadrant = 14" "height two_pixel_quadrant = 14"
    by (simp_all add: two_pixel_quadrant_def)
  have b: "remove_white_borders two_pixel_quadrant 240 = crop two_pixel_quadrant (1, 1, 12, 12)"
    by (simp add: remove_white_borders_def content_bounds_two_pixel w2)
  have c: "width (crop two_pixel_quadrant (1, 1, 12, 12)) = 11"
    "height (crop two_pixel_quadrant (1, 1, 12, 12)) = 11"
    by (simp_all add: crop_def)
  show ?thesis
    by (simp only: a b c w1 content_single_pixel_quadrant simp_thms)
qed

section \<open>Grid decomposition\<close>

lemma str_nat_digits:
  "str_nat (Suc 0) = ''1''" "str_nat 1 = ''1''" "str_nat 2 = ''2''" "str_nat 3 = ''3''"
  "str_nat 4 = ''4''"
  by (simp_all add: str_nat.simps)

lemma str_nat_four: "str_nat (Suc (Suc (Suc (Suc 0)))) = ''4''"
proof -
  have "Suc (Suc (Suc (Suc 0))) = 4" by simp
  then show ?thesis by (simp only: str_nat_digits)
qed

lemma splitext_grid: "splitext ''grid.png'' = (''grid'', ''.png'')"
  by (simp add: splitext_def rfind_def Let_def)

lemma path_join_uploads: "path_join UPLOAD_DIR ''grid.png'' = ''uploads/grid.png''"
  by (simp add: path_join_def UPLOAD_DIR_def startswith_def endswith_def)

text \<open>
  The split of a composite that is in the uploads directory, when every quadrant is
  saved: the four entries in order, and the directory afterwards.
\<close>

lemma split_grid_image_quadrants:
  assumes "fs (path_join UPLOAD_DIR filename) = Some (Encoded g)"
    and "splitext filename = (base, ext)"
    and "W = int (width g)" and "H = int (height g)"
    and "boxes = [(0, 0, 0 + W div 2, 0 + H div 2), (W div 2, 0, W div 2 + W div 2, 0 + H div 2),
                  (0, H div 2, 0 + W div 2, H div 2 + H div 2),
                  (W div 2, H div 2, W div 2 + W div 2, H div 2 + H div 2)]"
    and "names = [base @ ''_1'' @ ext, base @ ''_2'' @ ext, base @ ''_3'' @ ext, base @ ''_4'' @ ext]"
    and "quads = map (\<lambda>b. remove_white_borders (crop g b) 240) boxes"
    and "\<forall>i<4. save_error (path_join UPLOAD_DIR (names ! i)) (quads ! i) = None"
  shows "split_grid_image save_error filename remove_original fs =
           (SplitSuccess (map2 (\<lambda>n q. SplitEntry n (Encoded q) ''image/png'') names quads)
              ''Successfully split grid into 4 images'',
            (let fs4 = fs(path_join UPLOAD_DIR (names ! 0) \<mapsto> Encoded (quads ! 0),
                          path_join UPLOAD_DIR (names ! 1) \<mapsto> Encoded (quads ! 1),
                          path_join UPLOAD_DIR (names ! 2) \<mapsto> Encoded (quads ! 2),
                          path_join UPLOAD_DIR (names ! 3) \<mapsto> Encoded (quads ! 3))
             in if remove_original then fs4(path_join UPLOAD_DIR filename := None) else fs4))"
proof -
  have s: "save_error (path_join UPLOAD_DIR (names ! 0)) (quads ! 0) = None"
    "save_error (path_join UPLOAD_DIR (names ! 1)) (quads ! 1) = None"
    "save_error (path_join UPLOAD_DIR (names ! 2)) (quads ! 2) = None"
    "save_error (path_join UPLOAD_DIR (names ! 3)) (quads ! 3) = None"
    using assms(8) by simp_all
  show ?thesis
    using s unfolding assms(5,6,7)
    by (simp add: split_grid_image_def assms(1,2) quadrant_origins_def quadrant_box_def
        str_nat_digits str_nat_four Let_def assms(3,4))
qed

text \<open>
  Claim C5. For a composite of even width \<open>W\<close> and even height \<open>H\<close> the split crops the
  four boxes of size \<open>(W div 2, H div 2)\<close> at the origins \<open>(0, 0)\<close>, \<open>(W div 2, 0)\<close>,
  \<open>(0, H div 2)\<close>, \<open>(W div 2, H div 2)\<close>, in that order, trims each and persists them as
  \<open>base_1ext\<close> to \<open>base_4ext\<close>, where \<open>(base, ext)\<close> splits the composite's name (\<open>ext\<close>
  carries its dot). Each crop is \<open>W div 2\<close> by \<open>H div 2\<close>, holds the source's pixels at its
  offset and lies inside the source; every pixel of the source lies in exactly one box.
  The hypothesis on \<open>save_error\<close> says that the image library writes the four files.
\<close>

theorem grid_decomposition:
  assumes "even (width g)" and "even (height g)"
    and "fs (path_join UPLOAD_DIR filename) = Some (Encoded g)"
    and "splitext filename = (base, ext)"
    and "W = int (width g)" and "H = int (height g)"
    and "boxes = [(0, 0, 0 + W div 2, 0 + H div 2), (W div 2, 0, W div 2 + W div 2, 0 + H div 2),
                  (0, H div 2, 0 + W div 2, H div 2 + H div 2),
                  (W div 2, H div 2, W div 2 + W div 2, H div 2 + H div 2)]"
    and "names = [base @ ''_1'' @ ext, base @ ''_2'' @ ext, base @ ''_3'' @ ext, base @ ''_4'' @ ext]"
    and "quads = map (\<lambda>b. remove_white_borders (crop g b) 240) boxes"
    and "\<forall>i<4. save_error (path_join UPLOAD_DIR (names ! i)) (quads ! i) = None"
  shows "split_grid_image save_error filename remove_original fs =
           (SplitSuccess (map2 (\<lambda>n q. SplitEntry n (Encoded q) ''image/png'') names quads)
              ''Successfully split grid into 4 images'',
            (let fs4 = fs(path_join UPLOAD_DIR (names ! 0) \<mapsto> Encoded (quads ! 0),
                          path_join UPLOAD_DIR (names ! 1) \<mapsto> Encoded (quads ! 1),
                          path_join UPLOAD_DIR (names ! 2) \<mapsto> Encoded (quads ! 2),
                          path_join UPLOAD_DIR (names ! 3) \<mapsto> Encoded (quads ! 3))
             in if remove_original then fs4(path_join UPLOAD_DIR filename := None) else fs4)) \<and>
         (\<forall>b \<in> set boxes. width (crop g b) = width g div 2 \<and> height (crop g b) = height g div 2 \<and>
            (\<forall>x y. pixels (crop g b) x y = pixels g (fst b + x) (fst (snd b) + y)) \<and>
            (\<forall>x y. in_box b x y \<longrightarrow> 0 \<le> x \<and> x < W \<and> 0 \<le> y \<and> y < H)) \<and>
         (\<forall>x y. 0 \<le> x \<and> x < W \<and> 0 \<le> y \<and> y < H \<longrightarrow>
            (\<exists>i<4. in_box (boxes ! i) x y \<and> (\<forall>j<4. in_box (boxes ! j) x y \<longrightarrow> j = i)))"
proof (intro conjI)
  show "split_grid_image save_error filename remove_original fs =
           (SplitSuccess (map2 (\<lambda>n q. SplitEntry n (Encoded q) ''image/png'') names quads)
              ''Successfully split grid into 4 images'',
            (let fs4 = fs(path_join UPLOAD_DIR (names ! 0) \<mapsto> Encoded (quads ! 0),
                          path_join UPLOAD_DIR (names ! 1) \<mapsto> Encoded (quads ! 1),
                          path_join UPLOAD_DIR (names ! 2) \<mapsto> Encoded (quads ! 2),
                          path_join UPLOAD_DIR (names ! 3) \<mapsto> Encoded (quads ! 3))
             in if remove_original then fs4(path_join UPLOAD_DIR filename := None) else fs4))"
    using assms(3-10) by (rule split_grid_image_quadrants)
next
  have W: "W = 2 * (W div 2)" "0 \<le> W" using assms(1,5) by auto
  have H: "H = 2 * (H div 2)" "0 \<le> H" using assms(2,6) by auto
  show "\<forall>b \<in> set boxes. width (crop g b) = width g div 2 \<and> height (crop g b) = height g div 2 \<and>
            (\<forall>x y. pixels (crop g b) x y = pixels g (fst b + x) (fst (snd b) + y)) \<and>
            (\<forall>x y. in_box b x y \<longrightarrow> 0 \<le> x \<and> x < W \<and> 0 \<le> y \<and> y < H)"
    unfolding assms(7) using W H assms(5,6)
    by (auto simp: crop_def in_box_def nat_div_distrib)
next
  have W: "W = 2 * (W div 2)" "0 \<le> W" using assms(1,5) by auto
  have H: "H = 2 * (H div 2)" "0 \<le> H" using assms(2,6) by auto
  show "\<forall>x y. 0 \<le> x \<and> x < W \<and> 0 \<le> y \<and> y < H \<longrightarrow>
            (\<exists>i<4. in_box (boxes ! i) x y \<and> (\<forall>j<4. in_box (boxes ! j) x y \<longrightarrow> j = i))"
  proof (intro allI impI)
    fix x y assume a: "0 \<le> x \<and> x < W \<and> 0 \<le> y \<and> y < H"
    have four: "\<And>P. (\<forall>j<4. P (j::nat)) = (P 0 \<and> P 1 \<and> P 2 \<and> P 3)"
      by (auto simp: numeral_eq_Suc less_Suc_eq)
    consider "x < W div 2 \<and> y < H div 2" | "W div 2 \<le> x \<and> y < H div 2"
      | "x < W div 2 \<and> H div 2 \<le> y" | "W div 2 \<le> x \<and> H div 2 \<le> y" by linarith
    then show "\<exists>i<4. in_box (boxes ! i) x y \<and> (\<forall>j<4. in_box (boxes ! j) x y \<longrightarrow> j = i)"
    proof cases
      case 1
      then show ?thesis using a W H unfolding assms(7) four
        by (intro exI [of _ 0]) (simp add: in_box_def)
    next
      case 2
      then show ?thesis using a W H unfolding assms(7) four
        by (intro exI [of _ 1]) (simp add: in_box_def)
    next
      case 3
      then show ?thesis using a W H unfolding assms(7) four
        by (intro exI [of _ 2]) (simp add: in_box_def)
    next
      case 4
      then show ?thesis using a W H unfolding assms(7) four
        by (intro exI [of _ 3]) (simp add: in_box_def)
    qed
  qed
qed

lemma four_colour_grid_size: "width four_colour_grid = 4" "height four_colour_grid = 4"
  by (simp_all add: four_colour_grid_def)

text \<open>The theorem at the four-colour composite \<^verbatim>\<open>grid.png\<close>, split with removal.\<close>

theorem grid_decomposition_witness:
  "split_grid_image (\<lambda>p q. None) ''grid.png'' True grid_only =
     (SplitSuccess
        [SplitEntry ''grid_1.png'' (Encoded (remove_white_borders (crop four_colour_grid (0, 0, 2, 2)) 240)) ''image/png'',
         SplitEntry ''grid_2.png'' (Encoded (remove_white_borders (crop four_colour_grid (2, 0, 4, 2)) 240)) ''image/png'',
         SplitEntry ''grid_3.png'' (Encoded (remove_white_borders (crop four_colour_grid (0, 2, 2, 4)) 240)) ''image/png'',
         SplitEntry ''grid_4.png'' (Encoded (remove_white_borders (crop four_colour_grid (2, 2, 4, 4)) 240)) ''image/png'']
        ''Successfully split grid into 4 images'',
      Map.empty
        (''uploads/grid_1.png'' \<mapsto> Encoded (remove_white_borders (crop four_colour_grid (0, 0, 2, 2)) 240),
         ''uploads/grid_2.png'' \<mapsto> Encoded (remove_white_borders (crop four_colour_grid (2, 0, 4, 2)) 240),
         ''uploads/grid_3.png'' \<mapsto> Encoded (remove_white_borders (crop four_colour_grid (0, 2, 2, 4)) 240),
         ''uploads/grid_4.png'' \<mapsto> Encoded (remove_white_borders (crop four_colour_grid (2, 2, 4, 4)) 240))) \<and>
   width (crop four_colour_grid (2, 0, 4, 2)) = 2 \<and> height (crop four_colour_grid (2, 0, 4, 2)) = 2 \<and>
   in_box (2, 0, 4, 2) 3 1 \<and> \<not> in_box (0, 0, 2, 2) 3 1 \<and> \<not> in_box (0, 2, 2, 4) 3 1 \<and>
   \<not> in_box (2, 2, 4, 4) 3 1"
proof -
  have e: "even (width four_colour_grid)" "even (height four_colour_grid)"
    by (simp_all add: four_colour_grid_size)
  have f: "grid_only (path_join UPLOAD_DIR ''grid.png'') = Some (Encoded four_colour_grid)"
    by (simp add: grid_only_def path_join_uploads)
  have p: "path_join UPLOAD_DIR ''grid_1.png'' = ''uploads/grid_1.png''"
    "path_join UPLOAD_DIR ''grid_2.png'' = ''uploads/grid_2.png''"
    "path_join UPLOAD_DIR ''grid_3.png'' = ''uploads/grid_3.png''"
    "path_join UPLOAD_DIR ''grid_4.png'' = ''uploads/grid_4.png''"
    by (simp_all add: path_join_def UPLOAD_DIR_def startswith_def endswith_def)
  have u: "grid_only(''uploads/grid.png'' := None) = Map.empty"
    by (simp add: grid_only_def)
  have g: "grid_only(''uploads/grid_1.png'' \<mapsto> a, ''uploads/grid_2.png'' \<mapsto> b,
      ''uploads/grid_3.png'' \<mapsto> c, ''uploads/grid_4.png'' \<mapsto> d, ''uploads/grid.png'' := None)
    = Map.empty(''uploads/grid_1.png'' \<mapsto> a, ''uploads/grid_2.png'' \<mapsto> b,
      ''uploads/grid_3.png'' \<mapsto> c, ''uploads/grid_4.png'' \<mapsto> d)" for a b c d
    by (rule ext) (simp add: grid_only_def)
  show ?thesis
    using grid_decomposition [where fs = grid_only and filename = "''grid.png''"
        and save_error = "\<lambda>p q. None" and remove_original = True,
        OF e(1) e(2) f splitext_grid refl refl, OF refl refl, OF refl]
    by (simp add: four_colour_grid_size p path_join_uploads g in_box_def crop_def)
qed

section \<open>Artifact names\<close>

text \<open>Facts about \<open>rfind\<close> and \<open>splitext\<close>.\<close>

lemma rfind_bounds: "- 1 \<le> rfind c s \<and> rfind c s < int (length s)"
proof (cases "c \<in> set s")
  case False
  then show ?thesis by (simp add: rfind_def)
next
  case True
  then have "c \<in> set (rev s)" by simp
  then have "dropWhile (\<lambda>x. x \<noteq> c) (rev s) \<noteq> []"
    by (simp add: dropWhile_eq_Nil_conv)
  moreover have "length (takeWhile (\<lambda>x. x \<noteq> c) (rev s)) + length (dropWhile (\<lambda>x. x \<noteq> c) (rev s))
      = length (rev s)"
    by (metis length_append takeWhile_dropWhile_id)
  ultimately have "length (takeWhile (\<lambda>x. x \<noteq> c) (rev s)) < length s"
    by (cases "dropWhile (\<lambda>x. x \<noteq> c) (rev s)") auto
  with True show ?thesis by (simp add: rfind_def)
qed

lemma rfind_append_without:
  assumes "c \<notin> set t"
  shows "rfind c (s @ t) = rfind c s"
proof (cases "c \<in> set s")
  case False
  with assms show ?thesis by (simp add: rfind_def)
next
  case True
  have "takeWhile (\<lambda>x. x \<noteq> c) (rev t @ rev s) = rev t @ takeWhile (\<lambda>x. x \<noteq> c) (rev s)"
    using assms by (intro takeWhile_append2) auto
  with True show ?thesis by (simp add: rfind_def)
qed

lemma rfind_dot_png: "rfind CHR ''.'' (x @ ''.png'') = int (length x)"
  by (simp add: rfind_def)

text \<open>
  A name that ends in \<^verbatim>\<open>.png\<close> after a character that is neither a dot nor a separator
  splits at that dot, whatever stands before.
\<close>

lemma splitext_png:
  assumes "c \<noteq> CHR ''.''" and "c \<noteq> CHR ''/''"
  shows "splitext (s @ c # ''.png'') = (s @ [c], ''.png'')"
proof -
  let ?p = "s @ c # ''.png''"
  have dot: "rfind CHR ''.'' ?p = int (length s) + 1"
    using rfind_dot_png [of "s @ [c]"] by simp
  have sep: "rfind CHR ''/'' ?p = rfind CHR ''/'' s"
    using assms(2) by (intro rfind_append_without) simp
  define j where "j = nat (rfind CHR ''/'' s + 1)"
  have j: "j \<le> length s" "int j = rfind CHR ''/'' s + 1"
    using rfind_bounds [of "CHR ''/''" s] by (auto simp: j_def)
  have k: "nat (int (length s) + 1 - (rfind CHR ''/'' s + 1)) = Suc (length s - j)"
    using j by linarith
  have "take (Suc (length s - j)) (drop j ?p) = drop j s @ [c]"
    using j(1) by simp
  then have "take (nat (int (length s) + 1 - (rfind CHR ''/'' s + 1))) (drop j ?p) = drop j s @ [c]"
    by (simp only: k)
  then have ex: "list_ex (\<lambda>ch. ch \<noteq> CHR ''.'')
      (take (nat (int (length s) + 1 - (rfind CHR ''/'' s + 1))) (drop (nat (rfind CHR ''/'' s + 1)) ?p))"
    using assms(1) by (simp add: j_def list_ex_iff)
  have lt: "rfind CHR ''/'' s < int (length s) + 1"
    using rfind_bounds [of "CHR ''/''" s] by simp
  show ?thesis
    unfolding splitext_def dot sep Let_def using ex lt
    by (simp add: nat_add_distrib)
qed

lemma splitext_append: "fst (splitext p) @ snd (splitext p) = p"
  by (simp add: splitext_def Let_def)

lemma splitext_parts: "splitext p = (a, b) \<Longrightarrow> a @ b = p"
  using splitext_append [of p] by simp


text \<open>Whenever a split succeeds, its entries carry the four quadrant names, in order.\<close>

lemma split_grid_image_names:
  assumes "split_grid_image save_error filename remove_original fs = (SplitSuccess es m, fs')"
    and "splitext filename = (base, ext)"
  shows "map entry_filename es =
           [base @ ''_1'' @ ext, base @ ''_2'' @ ext, base @ ''_3'' @ ext, base @ ''_4'' @ ext]"
proof -
  obtain g where g: "fs (path_join UPLOAD_DIR filename) = Some (Encoded g)"
    using assms(1)
    by (auto simp: split_grid_image_def Let_def split: option.splits file_content.splits)
  show ?thesis
    using assms(1)
    by (auto simp: split_grid_image_def g assms(2) Let_def quadrant_origins_def quadrant_box_def
        str_nat_digits split: option.splits)
qed

lemma endswith_append:
  assumes "endswith b p"
  shows "endswith (a @ b) p"
proof -
  have l: "length p \<le> length b" and d: "drop (length b - length p) b = p"
    using assms by (simp_all add: endswith_def)
  have "length (a @ b) - length p = length a + (length b - length p)" using l by simp
  then have "drop (length (a @ b) - length p) (a @ b) = drop (length b - length p) b" by simp
  with l d show ?thesis by (simp add: endswith_def)
qed

lemma startswith_append: "startswith (p @ r) p"
  by (simp add: startswith_def)

lemma wait_for_images_found:
  "list_images (env 0) prefix limit \<noteq> [] \<Longrightarrow>
   wait_for_images env prefix limit max_wait_time poll_interval =
     Some (list_images (env 0) prefix limit, 0)"
  by (simp add: wait_for_images_def) (subst wait_loop.simps, simp)

section \<open>The poller\<close>

text \<open>One unfolding of the loop: it stops, or it sleeps and lists again.\<close>

lemma wait_loop_stop:
  "filenames \<noteq> [] \<or> max_wait_time \<le> waited \<Longrightarrow>
   wait_loop env prefix limit max_wait_time poll_interval k waited filenames = Some (filenames, k)"
  by (subst wait_loop.simps) auto

lemma wait_loop_step:
  "filenames = [] \<Longrightarrow> waited < max_wait_time \<Longrightarrow>
   wait_loop env prefix limit max_wait_time poll_interval k waited filenames =
   wait_loop env prefix limit max_wait_time poll_interval (Suc k) (waited + poll_interval)
     (list_images (env (Suc k)) prefix limit)"
  by (subst wait_loop.simps) simp

text \<open>
  With a positive interval the loop returns, by induction on the time left. It returns
  the names of the last listing, after \<open>n - k\<close> further sleeps, as soon as a listing
  is not empty or the time is used up.
\<close>

lemma wait_loop_returns:
  assumes "0 < poll_interval"
  shows "\<exists>fs n. wait_loop env prefix limit max_wait_time poll_interval k waited filenames = Some (fs, n) \<and>
           k \<le> n \<and>
           fs = (if n = k then filenames else list_images (env n) prefix limit) \<and>
           (fs \<noteq> [] \<or> max_wait_time \<le> waited + int (n - k) * poll_interval) \<and>
           (n \<noteq> k \<longrightarrow> filenames = []) \<and>
           (\<forall>j. k < j \<and> j < n \<longrightarrow> list_images (env j) prefix limit = []) \<and>
           (\<forall>j. k \<le> j \<and> j < n \<longrightarrow> waited + int (j - k) * poll_interval < max_wait_time)"
  using assms
proof (induction "nat (max_wait_time - waited)" arbitrary: k waited filenames rule: less_induct)
  case less
  show ?case
  proof (cases "filenames \<noteq> [] \<or> max_wait_time \<le> waited")
    case True
    then have "wait_loop env prefix limit max_wait_time poll_interval k waited filenames = Some (filenames, k)"
      by (rule wait_loop_stop)
    with True show ?thesis by auto
  next
    case False
    then have e: "filenames = []" and w: "waited < max_wait_time" by auto
    have m: "nat (max_wait_time - (waited + poll_interval)) < nat (max_wait_time - waited)"
      using w less.prems by linarith
    obtain fs n where r:
      "wait_loop env prefix limit max_wait_time poll_interval (Suc k) (waited + poll_interval)
         (list_images (env (Suc k)) prefix limit) = Some (fs, n)"
      "Suc k \<le> n"
      "fs = (if n = Suc k then list_images (env (Suc k)) prefix limit else list_images (env n) prefix limit)"
      "fs \<noteq> [] \<or> max_wait_time \<le> waited + poll_interval + int (n - Suc k) * poll_interval"
      "n \<noteq> Suc k \<longrightarrow> list_images (env (Suc k)) prefix limit = []"
      "\<forall>j. Suc k < j \<and> j < n \<longrightarrow> list_images (env j) prefix limit = []"
      "\<forall>j. Suc k \<le> j \<and> j < n \<longrightarrow> waited + poll_interval + int (j - Suc k) * poll_interval < max_wait_time"
      using less.hyps [OF m less.prems, of "Suc k" "list_images (env (Suc k)) prefix limit"] by blast
    have s: "wait_loop env prefix limit max_wait_time poll_interval k waited filenames = Some (fs, n)"
      using wait_loop_step [OF e w] r(1) by simp
    have i: "int (n - k) = 1 + int (n - Suc k)" using r(2) by linarith
    have a4: "fs \<noteq> [] \<or> max_wait_time \<le> waited + int (n - k) * poll_interval"
      using r(4) by (simp add: i algebra_simps)
    have a6: "\<forall>j. k < j \<and> j < n \<longrightarrow> list_images (env j) prefix limit = []"
    proof (intro allI impI)
      fix j assume j: "k < j \<and> j < n"
      show "list_images (env j) prefix limit = []"
      proof (cases "j = Suc k")
        case True
        with j r(5) show ?thesis by auto
      next
        case False
        with j r(6) show ?thesis by auto
      qed
    qed
    have a7: "\<forall>j. k \<le> j \<and> j < n \<longrightarrow> waited + int (j - k) * poll_interval < max_wait_time"
    proof (intro allI impI)
      fix j assume j: "k \<le> j \<and> j < n"
      show "waited + int (j - k) * poll_interval < max_wait_time"
      proof (cases "j = k")
        case True
        with w show ?thesis by simp
      next
        case False
        with j have j': "Suc k \<le> j \<and> j < n" by auto
        then have "int (j - k) = 1 + int (j - Suc k)" by linarith
        with r(7) j' show ?thesis by (simp add: algebra_simps)
      qed
    qed
    show ?thesis
      using s r(2) r(3) a4 e a6 a7 by auto
  qed
qed

lemma wait_for_images_returns:
  assumes "0 < poll_interval"
  shows "\<exists>fs n. wait_for_images env prefix limit max_wait_time poll_interval = Some (fs, n) \<and>
           fs = list_images (env n) prefix limit \<and>
           (fs \<noteq> [] \<or> max_wait_time \<le> int n * poll_interval) \<and>
           (\<forall>j<n. list_images (env j) prefix limit = [] \<and> int j * poll_interval < max_wait_time)"
proof -
  obtain fs n where r:
    "wait_loop env prefix limit max_wait_time poll_interval 0 0 (list_images (env 0) prefix limit) = Some (fs, n)"
    "fs = (if n = 0 then list_images (env 0) prefix limit else list_images (env n) prefix limit)"
    "fs \<noteq> [] \<or> max_wait_time \<le> 0 + int (n - 0) * poll_interval"
    "n \<noteq> 0 \<longrightarrow> list_images (env 0) prefix limit = []"
    "\<forall>j. 0 < j \<and> j < n \<longrightarrow> list_images (env j) prefix limit = []"
    "\<forall>j. 0 \<le> j \<and> j < n \<longrightarrow> 0 + int (j - 0) * poll_interval < max_wait_time"
    using wait_loop_returns [OF assms, of env prefix limit max_wait_time 0 0
        "list_images (env 0) prefix limit"] by blast
  have "\<forall>j<n. list_images (env j) prefix limit = []"
  proof (intro allI impI)
    fix j assume "j < n"
    then show "list_images (env j) prefix limit = []"
      using r(4) r(5) by (cases "j = 0") auto
  qed
  then show ?thesis
    using r by (auto simp: wait_for_images_def)
qed


lemma py_take_length: "0 \<le> limit \<Longrightarrow> length (py_take limit xs) \<le> nat limit"
  by (simp add: py_take_def)

lemma list_images_length: "0 \<le> limit \<Longrightarrow> length (list_images dir prefix limit) \<le> nat limit"
  by (cases dir) (simp_all add: list_images_def Let_def py_take_length)

text \<open>
  Claim C3, as amended. With a positive \<^verbatim>\<open>poll_interval\<close> the poller returns: it lists at
  once and after every sleep, and it returns the names of the first listing that is not
  empty, or of the listing at which the elapsed time \<open>n * poll_interval\<close> has reached
  \<^verbatim>\<open>max_wait_time\<close>; every earlier listing was empty and made with time left. There is no
  minimum count: \<^verbatim>\<open>limit\<close> (4 for a generation request) only caps the number of names.
\<close>

theorem poller_returns_on_first_match_or_timeout:
  assumes "0 < poll_interval"
  shows "\<exists>fs n. wait_for_images env prefix limit max_wait_time poll_interval = Some (fs, n) \<and>
           fs = list_images (env n) prefix limit \<and>
           (fs \<noteq> [] \<or> max_wait_time \<le> int n * poll_interval) \<and>
           (\<forall>j<n. list_images (env j) prefix limit = [] \<and> int j * poll_interval < max_wait_time) \<and>
           (0 \<le> limit \<longrightarrow> length fs \<le> nat limit)"
  using wait_for_images_returns [OF assms, of env prefix limit max_wait_time]
    list_images_length [of limit _ prefix]
  by blast

lemma list_images_one_png: "list_images (Some [(''a.png'', 1)]) [] 4 = [''a.png'']"
  by (simp add: list_images_def endswith_def startswith_def py_take_def)

lemma list_images_none: "list_images (Some []) prefix limit = []"
  by (simp add: list_images_def py_take_def)

text \<open>
  The theorem at a directory where the file appears at the fourth listing (returned after 3
  sleeps) and at a directory that stays empty (returned empty after 45 sleeps of 2 s).
\<close>

theorem poller_returns_on_first_match_or_timeout_witness:
  "wait_for_images late_listing [] 4 90 2 = Some ([''a.png''], 3) \<and>
   wait_for_images empty_listing [] 4 90 2 = Some ([], 45)"
proof
  obtain fs n where r: "wait_for_images late_listing [] 4 90 2 = Some (fs, n)"
    "fs = list_images (late_listing n) [] 4"
    "fs \<noteq> [] \<or> (90::int) \<le> int n * 2"
    "\<forall>j<n. list_images (late_listing j) [] 4 = [] \<and> int j * 2 < (90::int)"
    using poller_returns_on_first_match_or_timeout [of 2 late_listing "[]" 4 90] by auto
  have "\<not> 3 < n"
  proof
    assume "3 < n"
    with r(4) have "list_images (late_listing 3) [] 4 = []" by blast
    then show False by (simp add: late_listing_def list_images_one_png)
  qed
  moreover have "\<not> n < 3"
  proof
    assume a: "n < 3"
    then have "fs = []" using r(2) by (simp add: late_listing_def list_images_none)
    with r(3) a show False by simp
  qed
  ultimately have "n = 3" by simp
  with r(1,2) show "wait_for_images late_listing [] 4 90 2 = Some ([''a.png''], 3)"
    by (simp add: late_listing_def list_images_one_png)
next
  obtain fs n where r: "wait_for_images empty_listing [] 4 90 2 = Some (fs, n)"
    "fs = list_images (empty_listing n) [] 4"
    "fs \<noteq> [] \<or> (90::int) \<le> int n * 2"
    "\<forall>j<n. list_images (empty_listing j) [] 4 = [] \<and> int j * 2 < (90::int)"
    using poller_returns_on_first_match_or_timeout [of 2 empty_listing "[]" 4 90] by auto
  have e: "fs = []" using r(2) by (simp add: empty_listing_def list_images_none)
  with r(3) have "45 \<le> n" by simp
  moreover have "\<not> 45 < n"
  proof
    assume "45 < n"
    with r(4) have "int 45 * 2 < (90::int)" by blast
    then show False by simp
  qed
  ultimately have "n = 45" by simp
  with r(1) e show "wait_for_images empty_listing [] 4 90 2 = Some ([], 45)" by simp
qed

text \<open>
  Claim C3 as stated fails: with one matching file present, fewer than the 4 of a
  generation request, and no time elapsed, the poller returns that one name without a
  single sleep.
\<close>

theorem poller_min_count_counterexample:
  "wait_for_images one_png_listing [] 4 90 2 = Some ([''a.png''], 0) \<and>
   length [''a.png''] < 4 \<and> int 0 * 2 < (90::int)"
  by (simp add: wait_for_images_found one_png_listing_def list_images_one_png)

section \<open>The endpoints\<close>

text \<open>What a listing returns: matching names only, the newest first.\<close>

lemma list_images_member:
  "f \<in> set (list_images dir prefix limit) \<Longrightarrow> endswith f ''.png'' \<and> startswith f prefix"
  by (cases dir) (auto simp: list_images_def Let_def py_take_def dest!: in_set_takeD split: if_splits)

lemma py_take_Cons:
  assumes "py_take limit xs = f # rest"
  shows "\<exists>more. xs = f # more"
proof -
  obtain m where "take m xs = f # rest"
    using assms by (auto simp: py_take_def split: if_splits)
  then show ?thesis by (cases xs; cases m) auto
qed

lemma list_images_hd_newest:
  assumes "list_images (Some entries) prefix limit = f # rest"
  shows "\<exists>t. (f, t) \<in> set entries \<and> endswith f ''.png'' \<and> startswith f prefix \<and>
           (\<forall>(g, u) \<in> set entries. endswith g ''.png'' \<and> startswith g prefix \<longrightarrow> u \<le> t)"
proof -
  let ?P = "\<lambda>(f, t). endswith f ''.png'' \<and> startswith f prefix"
  let ?key = "\<lambda>(f, t::int). - t"
  let ?sorted = "sort_key ?key (filter ?P entries)"
  have "py_take limit (map fst ?sorted) = f # rest"
    using assms by (simp add: list_images_def Let_def)
  from py_take_Cons [OF this] obtain more where "map fst ?sorted = f # more" by (elim exE)
  then obtain t tail where s: "?sorted = (f, t) # tail" by auto
  have "(f, t) \<in> set ?sorted" using s by simp
  then have m: "(f, t) \<in> set (filter ?P entries)" by simp
  have "sorted (map ?key ?sorted)" by (rule sorted_sort_key)
  then have "\<forall>y \<in> set tail. ?key (f, t) \<le> ?key y" using s by auto
  then have le: "\<forall>y \<in> set ?sorted. ?key (f, t) \<le> ?key y" using s by auto
  have "\<forall>(g, u) \<in> set entries. endswith g ''.png'' \<and> startswith g prefix \<longrightarrow> u \<le> t"
  proof (clarify)
    fix g u assume "(g, u) \<in> set entries" "endswith g ''.png''" "startswith g prefix"
    then have "(g, u) \<in> set ?sorted" by simp
    with le have "?key (f, t) \<le> ?key (g, u)" by blast
    then show "u \<le> t" by simp
  qed
  with m show ?thesis by auto
qed

lemma list_images_nonempty:
  assumes "(f, t) \<in> set entries" and "endswith f ''.png''" and "startswith f prefix" and "0 < limit"
  shows "list_images (Some entries) prefix limit \<noteq> []"
proof -
  let ?P = "\<lambda>(f, t). endswith f ''.png'' \<and> startswith f prefix"
  have "(f, t) \<in> set (filter ?P entries)" using assms(1-3) by simp
  then have "0 < length (filter ?P entries)" by (rule length_pos_if_in_set)
  then have "0 < length (map fst (sort_key (\<lambda>(f, t). - t) (filter ?P entries)))" by simp
  then have "map fst (sort_key (\<lambda>(f, t). - t) (filter ?P entries)) \<noteq> []" by blast
  then show ?thesis using assms(4) by (simp add: list_images_def Let_def py_take_def)
qed

lemma py_take_all: "length xs \<le> nat limit \<Longrightarrow> 0 \<le> limit \<Longrightarrow> py_take limit xs = xs"
  by (simp add: py_take_def)

lemma startswith_Nil: "startswith f []"
  by (simp add: startswith_def)

text \<open>The two endpoints after the agent has run, by what the poll returns.\<close>

lemma generate_images_found:
  assumes "runner prompt memory = (AgentEvents events, memory_after)"
    and "wait_for_images env [] 4 90 2 = Some (f # fs, k)"
  shows "generate_images (GenerateRequest prompt sid) fresh runner env memory =
     Some (Inr (GenerateResponse True
            (if agent_message events = [] \<or> generate_error_indicator (agent_message events)
             then ''Successfully generated '' @ str_nat (length (f # fs)) @ '' image(s)''
             else agent_message events)
            (py_take 4 (f # fs)) (if truthy sid then the sid else fresh)),
           set_last_generated f memory_after)"
  by (simp add: generate_images_def assms Let_def)

lemma generate_images_empty:
  assumes "runner prompt memory = (AgentEvents events, memory_after)"
    and "wait_for_images env [] 4 90 2 = Some ([], k)"
  shows "generate_images (GenerateRequest prompt sid) fresh runner env memory =
     Some (Inl (HTTPException 500
            (''No images generated. '' @
             (if list_images (env (Suc k)) [] 100 \<noteq> []
              then ''Found '' @ str_nat (length (list_images (env (Suc k)) [] 100)) @
                   '' other image(s) in uploads directory.''
              else ''No PNG files found in uploads directory.''))),
           memory_after)"
  by (simp add: generate_images_def assms Let_def)

lemma wait_for_images_names:
  assumes "wait_for_images env prefix limit 90 2 = Some (fs, k)"
  shows "fs = list_images (env k) prefix limit"
  using wait_for_images_returns [of 2 env prefix limit 90] assms by auto

lemma edit_image_found:
  assumes "truthy (image_to_edit (EditRequest edit_prompt image_filename sid) memory)"
    and "runner (''Please edit the image '' @
           the (image_to_edit (EditRequest edit_prompt image_filename sid) memory) @
           ''. Edit request: '' @ edit_prompt) memory = (AgentEvents events, memory_after)"
    and "wait_for_images env ''edited_'' 1 90 2 = Some (f # fs, k)"
  shows "edit_image (EditRequest edit_prompt image_filename sid) fresh runner env memory =
     Some (Inr (EditResponse True
            (if agent_message events = [] \<or> edit_error_indicator (agent_message events)
             then ''Image edited successfully'' else agent_message events)
            f (if truthy sid then the sid else fresh)),
           set_last_edited f memory_after)"
proof -
  have "f \<in> set (list_images (env k) ''edited_'' 1)"
    using wait_for_images_names [OF assms(3)] by (metis list.set_intros(1))
  then have "startswith f ''edited_''" using list_images_member by blast
  then have "f \<noteq> []" by (auto simp: startswith_def)
  then show ?thesis
    using assms by (simp add: edit_image_def Let_def)
qed

lemma edit_image_empty:
  assumes "truthy (image_to_edit (EditRequest edit_prompt image_filename sid) memory)"
    and "runner (''Please edit the image '' @
           the (image_to_edit (EditRequest edit_prompt image_filename sid) memory) @
           ''. Edit request: '' @ edit_prompt) memory = (AgentEvents events, memory_after)"
    and "wait_for_images env ''edited_'' 1 90 2 = Some ([], k)"
  shows "edit_image (EditRequest edit_prompt image_filename sid) fresh runner env memory =
     Some (Inl (HTTPException 500 ''Edited image not found. The agent may still be processing.''),
           memory_after)"
  using assms by (simp add: edit_image_def Let_def)

lemma wait_for_images_empty_listing:
  "wait_for_images empty_listing prefix limit 90 2 = Some ([], 45)"
proof -
  obtain fs n where r: "wait_for_images empty_listing prefix limit 90 2 = Some (fs, n)"
    "fs = list_images (empty_listing n) prefix limit"
    "fs \<noteq> [] \<or> (90::int) \<le> int n * 2"
    "\<forall>j<n. list_images (empty_listing j) prefix limit = [] \<and> int j * 2 < (90::int)"
    using wait_for_images_returns [of 2 empty_listing prefix limit 90] by auto
  have e: "fs = []" using r(2) by (simp add: empty_listing_def list_images_none)
  with r(3) have "45 \<le> n" by simp
  moreover have "\<not> 45 < n"
  proof
    assume "45 < n"
    with r(4) have "int 45 * 2 < (90::int)" by blast
    then show False by simp
  qed
  ultimately have "n = 45" by simp
  with r(1) e show ?thesis by simp
qed


lemma agent_message_single: "agent_message [Event True [text]] = text"
  by (simp add: agent_message_def)

lemma run_simps:
  "refusing_runner p m = (AgentEvents [Event True [''I cannot generate that'']], m)"
  "error_runner p m = (AgentEvents [Event True [''Error: cannot edit'']], m)"
  "quota_runner p m = (AgentEvents [Event True [''Quota exceeded, try later'']], m)"
  "silent_runner p m = (AgentEvents [], m)"
  by (simp_all add: refusing_runner_def error_runner_def quota_runner_def silent_runner_def)

lemma wait_one_png: "wait_for_images one_png_listing [] 4 90 2 = Some ([''a.png''], 0)"
  by (simp add: wait_for_images_found one_png_listing_def list_images_one_png)

lemma list_images_edited_png: "list_images (Some [(''edited_1_x.png'', 1)]) ''edited_'' 1 = [''edited_1_x.png'']"
  by (simp add: list_images_def endswith_def startswith_def py_take_def)

lemma wait_edited_png:
  "wait_for_images edited_png_listing ''edited_'' 1 90 2 = Some ([''edited_1_x.png''], 0)"
  by (simp add: wait_for_images_found edited_png_listing_def list_images_edited_png)

lemma indicator_evaluations:
  "generate_error_indicator ''Error: cannot edit''"
  "edit_error_indicator ''Error: cannot edit''"
  "\<not> generate_error_indicator ''I cannot generate that''"
  by (simp_all add: generate_error_indicator_def edit_error_indicator_def lower_def lower_char_def
      startswith_def)

text \<open>
  Claim C1, as amended. Whenever the poll returns at least one name, the endpoint
  answers with success. The message is replaced by a generic success statement exactly
  when the delegation message is empty or holds one of the endpoint's error indicators
  (for generation: \<^verbatim>\<open>Error:\<close>, or \<^verbatim>\<open>error\<close> or \<^verbatim>\<open>failed\<close> in any case; for editing also
  \<^verbatim>\<open>cannot edit\<close> and \<^verbatim>\<open>only generate\<close> in any case and \<^verbatim>\<open>I cannot\<close>); otherwise the delegation
  message is returned as it is. The generic statement names the count for generation
  (\<^verbatim>\<open>Successfully generated N image(s)\<close>); for editing it is \<^verbatim>\<open>Image edited successfully\<close>.
\<close>

theorem success_whenever_artifacts_observed:
  "(runner prompt memory = (AgentEvents events, memory_after) \<and>
    wait_for_images env [] 4 90 2 = Some (f # fs, k) \<longrightarrow>
      generate_images (GenerateRequest prompt sid) fresh runner env memory =
        Some (Inr (GenerateResponse True
               (if agent_message events = [] \<or> generate_error_indicator (agent_message events)
                then ''Successfully generated '' @ str_nat (length (f # fs)) @ '' image(s)''
                else agent_message events)
               (f # fs) (if truthy sid then the sid else fresh)),
              set_last_generated f memory_after)) \<and>
   (truthy (image_to_edit (EditRequest edit_prompt image_filename sid) memory) \<and>
    runner (''Please edit the image '' @
            the (image_to_edit (EditRequest edit_prompt image_filename sid) memory) @
            ''. Edit request: '' @ edit_prompt) memory = (AgentEvents events, memory_after) \<and>
    wait_for_images env ''edited_'' 1 90 2 = Some (f # fs, k) \<longrightarrow>
      edit_image (EditRequest edit_prompt image_filename sid) fresh runner env memory =
        Some (Inr (EditResponse True
               (if agent_message events = [] \<or> edit_error_indicator (agent_message events)
                then ''Image edited successfully'' else agent_message events)
               f (if truthy sid then the sid else fresh)),
              set_last_edited f memory_after))"
proof (intro conjI impI)
  assume a: "runner prompt memory = (AgentEvents events, memory_after) \<and>
    wait_for_images env [] 4 90 2 = Some (f # fs, k)"
  then have "f # fs = list_images (env k) [] 4" using wait_for_images_names by blast
  then have "length (f # fs) \<le> nat 4" using list_images_length [of 4 "env k" "[]"] by simp
  then have "py_take 4 (f # fs) = f # fs" by (intro py_take_all) simp_all
  then show "generate_images (GenerateRequest prompt sid) fresh runner env memory =
        Some (Inr (GenerateResponse True
               (if agent_message events = [] \<or> generate_error_indicator (agent_message events)
                then ''Successfully generated '' @ str_nat (length (f # fs)) @ '' image(s)''
                else agent_message events)
               (f # fs) (if truthy sid then the sid else fresh)),
              set_last_generated f memory_after)"
    using a generate_images_found [of runner prompt memory events memory_after env f fs k sid fresh]
    by simp
next
  assume "truthy (image_to_edit (EditRequest edit_prompt image_filename sid) memory) \<and>
    runner (''Please edit the image '' @
            the (image_to_edit (EditRequest edit_prompt image_filename sid) memory) @
            ''. Edit request: '' @ edit_prompt) memory = (AgentEvents events, memory_after) \<and>
    wait_for_images env ''edited_'' 1 90 2 = Some (f # fs, k)"
  then show "edit_image (EditRequest edit_prompt image_filename sid) fresh runner env memory =
        Some (Inr (EditResponse True
               (if agent_message events = [] \<or> edit_error_indicator (agent_message events)
                then ''Image edited successfully'' else agent_message events)
               f (if truthy sid then the sid else fresh)),
              set_last_edited f memory_after)"
    using edit_image_found by blast
qed

text \<open>
  The theorem at the delegation message \<^verbatim>\<open>Error: cannot edit\<close> with one file observed, for
  both endpoints.
\<close>

theorem success_whenever_artifacts_observed_witness:
  "generate_images (GenerateRequest ''a red dress'' None) ''s1'' error_runner one_png_listing init_memory =
     Some (Inr (GenerateResponse True ''Successfully generated 1 image(s)'' [''a.png''] ''s1''),
           set_last_generated ''a.png'' init_memory) \<and>
   edit_image (EditRequest ''make it red'' (Some ''a.png'') None) ''s1'' error_runner edited_png_listing
       init_memory =
     Some (Inr (EditResponse True ''Image edited successfully'' ''edited_1_x.png'' ''s1''),
           set_last_edited ''edited_1_x.png'' init_memory)"
proof -
  have t: "image_to_edit (EditRequest ''make it red'' (Some ''a.png'') None) init_memory = Some ''a.png''"
    by (simp add: image_to_edit_def py_or_def truthy_def)
  have g: "generate_images (GenerateRequest ''a red dress'' None) ''s1'' error_runner one_png_listing
      init_memory =
        Some (Inr (GenerateResponse True
               (if agent_message [Event True [''Error: cannot edit'']] = [] \<or>
                   generate_error_indicator (agent_message [Event True [''Error: cannot edit'']])
                then ''Successfully generated '' @ str_nat (length [''a.png'']) @ '' image(s)''
                else agent_message [Event True [''Error: cannot edit'']])
               [''a.png''] (if truthy None then the None else ''s1'')),
              set_last_generated ''a.png'' init_memory)"
    using success_whenever_artifacts_observed [where runner = error_runner and env = one_png_listing
        and prompt = "''a red dress''" and memory = init_memory and memory_after = init_memory
        and events = "[Event True [''Error: cannot edit'']]" and f = "''a.png''" and fs = "[]" and k = 0
        and sid = None and fresh = "''s1''"]
      run_simps(2) wait_one_png
    by blast
  have e: "edit_image (EditRequest ''make it red'' (Some ''a.png'') None) ''s1'' error_runner
      edited_png_listing init_memory =
        Some (Inr (EditResponse True
               (if agent_message [Event True [''Error: cannot edit'']] = [] \<or>
                   edit_error_indicator (agent_message [Event True [''Error: cannot edit'']])
                then ''Image edited successfully''
                else agent_message [Event True [''Error: cannot edit'']])
               ''edited_1_x.png'' (if truthy None then the None else ''s1'')),
              set_last_edited ''edited_1_x.png'' init_memory)"
    using success_whenever_artifacts_observed [where runner = error_runner and env = edited_png_listing
        and edit_prompt = "''make it red''" and image_filename = "Some ''a.png''"
        and memory = init_memory and memory_after = init_memory
        and events = "[Event True [''Error: cannot edit'']]" and f = "''edited_1_x.png''" and fs = "[]"
        and k = 0 and sid = None and fresh = "''s1''"]
      run_simps(2) wait_edited_png t
    by (simp add: truthy_def)
  show ?thesis
    using g e
    by (simp add: agent_message_single indicator_evaluations truthy_def str_nat_digits)
qed

text \<open>
  Claim C1 as stated fails. With one file observed and the delegation message
  \<^verbatim>\<open>I cannot generate that\<close>, the generation endpoint answers success and returns that very
  message: it is not replaced and not discarded. And the edit endpoint's generic statement
  names no count.
\<close>

theorem delegation_text_kept_counterexample:
  "generate_images (GenerateRequest ''a red dress'' None) ''s1'' refusing_runner one_png_listing
       init_memory =
     Some (Inr (GenerateResponse True ''I cannot generate that'' [''a.png''] ''s1''),
           set_last_generated ''a.png'' init_memory) \<and>
   edit_image (EditRequest ''make it red'' (Some ''a.png'') None) ''s1'' error_runner edited_png_listing
       init_memory =
     Some (Inr (EditResponse True ''Image edited successfully'' ''edited_1_x.png'' ''s1''),
           set_last_edited ''edited_1_x.png'' init_memory)"
proof -
  have t: "image_to_edit (EditRequest ''make it red'' (Some ''a.png'') None) init_memory = Some ''a.png''"
    by (simp add: image_to_edit_def py_or_def truthy_def)
  show ?thesis
    using generate_images_found [where runner = refusing_runner and prompt = "''a red dress''"
        and memory = init_memory and memory_after = init_memory
        and events = "[Event True [''I cannot generate that'']]" and env = one_png_listing
        and f = "''a.png''" and fs = "[]" and k = 0 and sid = None and fresh = "''s1''",
        OF run_simps(1) wait_one_png]
      edit_image_found [where runner = error_runner and env = edited_png_listing
        and edit_prompt = "''make it red''" and image_filename = "Some ''a.png''"
        and memory = init_memory and memory_after = init_memory
        and events = "[Event True [''Error: cannot edit'']]" and f = "''edited_1_x.png''" and fs = "[]"
        and k = 0 and sid = None and fresh = "''s1''", OF _ run_simps(2) wait_edited_png]
    by (simp add: agent_message_single indicator_evaluations truthy_def t py_take_def)
qed


text \<open>
  Claim C2, as amended. Whenever the poll returns nothing, the endpoint fails with
  status 500 and a fixed text, whatever the delegation message was: for generation
  \<^verbatim>\<open>No images generated.\<close> followed by a note on whether one more listing finds any PNG
  file; for editing \<^verbatim>\<open>Edited image not found. The agent may still be processing.\<close> The
  ledger is left as the agent run left it.
\<close>

theorem failure_when_nothing_observed:
  "(runner prompt memory = (AgentEvents events, memory_after) \<and>
    wait_for_images env [] 4 90 2 = Some ([], k) \<longrightarrow>
      generate_images (GenerateRequest prompt sid) fresh runner env memory =
        Some (Inl (HTTPException 500
               (''No images generated. '' @
                (if list_images (env (Suc k)) [] 100 \<noteq> []
                 then ''Found '' @ str_nat (length (list_images (env (Suc k)) [] 100)) @
                      '' other image(s) in uploads directory.''
                 else ''No PNG files found in uploads directory.''))),
              memory_after)) \<and>
   (truthy (image_to_edit (EditRequest edit_prompt image_filename sid) memory) \<and>
    runner (''Please edit the image '' @
            the (image_to_edit (EditRequest edit_prompt image_filename sid) memory) @
            ''. Edit request: '' @ edit_prompt) memory = (AgentEvents events, memory_after) \<and>
    wait_for_images env ''edited_'' 1 90 2 = Some ([], k) \<longrightarrow>
      edit_image (EditRequest edit_prompt image_filename sid) fresh runner env memory =
        Some (Inl (HTTPException 500 ''Edited image not found. The agent may still be processing.''),
              memory_after))"
  using generate_images_empty [of runner prompt memory events memory_after env k sid fresh]
    edit_image_empty [of edit_prompt image_filename sid memory runner events memory_after env k fresh]
  by blast

text \<open>
  The theorem at an agent run with no message and a directory that stays empty, for both
  endpoints.
\<close>

theorem failure_when_nothing_observed_witness:
  "generate_images (GenerateRequest ''a red dress'' None) ''s1'' silent_runner empty_listing init_memory =
     Some (Inl (HTTPException 500 ''No images generated. No PNG files found in uploads directory.''),
           init_memory) \<and>
   edit_image (EditRequest ''make it red'' (Some ''a.png'') None) ''s1'' silent_runner empty_listing
       init_memory =
     Some (Inl (HTTPException 500 ''Edited image not found. The agent may still be processing.''),
           init_memory)"
proof -
  have t: "image_to_edit (EditRequest ''make it red'' (Some ''a.png'') None) init_memory = Some ''a.png''"
    by (simp add: image_to_edit_def py_or_def truthy_def)
  have g: "generate_images (GenerateRequest ''a red dress'' None) ''s1'' silent_runner empty_listing
      init_memory =
        Some (Inl (HTTPException 500
               (''No images generated. '' @
                (if list_images (empty_listing (Suc 45)) [] 100 \<noteq> []
                 then ''Found '' @ str_nat (length (list_images (empty_listing (Suc 45)) [] 100)) @
                      '' other image(s) in uploads directory.''
                 else ''No PNG files found in uploads directory.''))),
              init_memory)"
    using failure_when_nothing_observed [where runner = silent_runner and env = empty_listing
        and prompt = "''a red dress''" and memory = init_memory and memory_after = init_memory
        and events = "[]" and k = 45 and sid = None and fresh = "''s1''"]
      run_simps(4) wait_for_images_empty_listing
    by blast
  have e: "edit_image (EditRequest ''make it red'' (Some ''a.png'') None) ''s1'' silent_runner
      empty_listing init_memory =
        Some (Inl (HTTPException 500 ''Edited image not found. The agent may still be processing.''),
              init_memory)"
    using failure_when_nothing_observed [where runner = silent_runner and env = empty_listing
        and edit_prompt = "''make it red''" and image_filename = "Some ''a.png''"
        and memory = init_memory and memory_after = init_memory
        and events = "[]" and k = 45 and sid = None and fresh = "''s1''"]
      run_simps(4) wait_for_images_empty_listing t
    by (simp add: truthy_def)
  show ?thesis
    using g e by (simp add: empty_listing_def list_images_none)
qed

text \<open>
  Claim C2 as stated fails: with the delegation message \<^verbatim>\<open>Quota exceeded, try later\<close> and
  nothing observed, the text surfaced is the fixed one, not the delegation message.
\<close>

theorem delegation_text_not_surfaced_counterexample:
  "generate_images (GenerateRequest ''a red dress'' None) ''s1'' quota_runner empty_listing init_memory =
     Some (Inl (HTTPException 500 ''No images generated. No PNG files found in uploads directory.''),
           init_memory) \<and>
   agent_message [Event True [''Quota exceeded, try later'']] = ''Quota exceeded, try later''"
  using generate_images_empty [where runner = quota_runner and prompt = "''a red dress''"
      and memory = init_memory and memory_after = init_memory
      and events = "[Event True [''Quota exceeded, try later'']]" and env = empty_listing
      and k = 45 and sid = None and fresh = "''s1''", OF run_simps(3) wait_for_images_empty_listing]
  by (simp add: empty_listing_def list_images_none agent_message_single)

text \<open>
  Claim C10. The generation endpoint polls with the empty prefix and no time threshold.
  If the directory holds any \<^verbatim>\<open>.png\<close> file at the first listing, the poll returns at once
  (no sleep) with names of files already there, the endpoint answers success with them,
  and the ledger's \<^verbatim>\<open>last_generated\<close> becomes the first of them, which is a \<^verbatim>\<open>.png\<close> file
  of the directory that no other \<^verbatim>\<open>.png\<close> file is newer than, whatever its name.
\<close>

theorem generate_poll_takes_existing_files:
  assumes "env 0 = Some entries" and "(f, t) \<in> set entries" and "endswith f ''.png''"
    and "runner prompt memory = (AgentEvents events, memory_after)"
  shows "\<exists>newest others stamp message.
           wait_for_images env [] 4 90 2 = Some (newest # others, 0) \<and>
           generate_images (GenerateRequest prompt sid) fresh runner env memory =
             Some (Inr (GenerateResponse True message (newest # others)
                          (if truthy sid then the sid else fresh)),
                   set_last_generated newest memory_after) \<and>
           last_generated (set_last_generated newest memory_after) = Some newest \<and>
           (newest, stamp) \<in> set entries \<and> endswith newest ''.png'' \<and>
           (\<forall>(g, u) \<in> set entries. endswith g ''.png'' \<longrightarrow> u \<le> stamp)"
proof -
  have ne: "list_images (env 0) [] 4 \<noteq> []"
    using list_images_nonempty [OF assms(2,3) startswith_Nil, of 4] assms(1) by simp
  then obtain newest others where l: "list_images (env 0) [] 4 = newest # others"
    by (cases "list_images (env 0) [] 4") auto
  have w: "wait_for_images env [] 4 90 2 = Some (newest # others, 0)"
    using wait_for_images_found [of env "[]" 4 90 2] ne l by simp
  obtain stamp where s: "(newest, stamp) \<in> set entries" "endswith newest ''.png''"
    "\<forall>(g, u) \<in> set entries. endswith g ''.png'' \<and> startswith g [] \<longrightarrow> u \<le> stamp"
    using list_images_hd_newest [of entries "[]" 4 newest others] l assms(1) by auto
  have "length (newest # others) \<le> nat 4"
    using list_images_length [of 4 "env 0" "[]"] l by simp
  then have p: "py_take 4 (newest # others) = newest # others" by (intro py_take_all) simp_all
  have g: "generate_images (GenerateRequest prompt sid) fresh runner env memory =
     Some (Inr (GenerateResponse True
            (if agent_message events = [] \<or> generate_error_indicator (agent_message events)
             then ''Successfully generated '' @ str_nat (length (newest # others)) @ '' image(s)''
             else agent_message events)
            (newest # others) (if truthy sid then the sid else fresh)),
           set_last_generated newest memory_after)"
    using generate_images_found [where runner = runner and prompt = prompt and memory = memory
        and env = env and sid = sid and fresh = fresh, OF assms(4) w] p by simp
  have lg: "last_generated (set_last_generated newest memory_after) = Some newest"
    by (simp add: set_last_generated_def Let_def)
  have mx: "\<forall>(g, u) \<in> set entries. endswith g ''.png'' \<longrightarrow> u \<le> stamp"
    using s(3) by (auto simp: startswith_Nil)
  show ?thesis
    using w g lg s(1,2) mx by blast
qed


text \<open>
  The theorem at a directory left with an older generated file, a newer edited file and
  a text file: \<^verbatim>\<open>last_generated\<close> becomes the edited file.
\<close>

theorem generate_poll_takes_existing_files_witness:
  "map_option snd (generate_images (GenerateRequest ''a red dress'' None) ''s1'' silent_runner
       leftover_listing init_memory) = Some (set_last_generated ''edited_7_x.png'' init_memory) \<and>
   last_generated (set_last_generated ''edited_7_x.png'' init_memory) = Some ''edited_7_x.png'' \<and>
   startswith ''edited_7_x.png'' ''edited_''"
proof -
  let ?entries = "[(''image_old_1.png'', 3), (''edited_7_x.png'', 9), (''notes.txt'', 12)] :: listing"
  have h: "leftover_listing 0 = Some ?entries" "(''image_old_1.png'', 3) \<in> set ?entries"
    "endswith ''image_old_1.png'' ''.png''"
    by (simp_all add: leftover_listing_def endswith_def)
  obtain newest others stamp message where r:
    "generate_images (GenerateRequest ''a red dress'' None) ''s1'' silent_runner leftover_listing
       init_memory =
       Some (Inr (GenerateResponse True message (newest # others)
                    (if truthy None then the None else ''s1'')),
             set_last_generated newest init_memory)"
    "last_generated (set_last_generated newest init_memory) = Some newest"
    "(newest, stamp) \<in> set ?entries" "endswith newest ''.png''"
    "\<forall>(g, u) \<in> set ?entries. endswith g ''.png'' \<longrightarrow> u \<le> stamp"
    using generate_poll_takes_existing_files [where env = leftover_listing and entries = ?entries
        and f = "''image_old_1.png''" and t = 3 and runner = silent_runner
        and prompt = "''a red dress''" and memory = init_memory and memory_after = init_memory
        and events = "[]" and sid = None and fresh = "''s1''", OF h run_simps(4)]
    by blast
  have "endswith ''edited_7_x.png'' ''.png''" by (simp add: endswith_def)
  with r(5) have "9 \<le> stamp" by auto
  moreover have "\<not> endswith ''notes.txt'' ''.png''" by (simp add: endswith_def)
  ultimately have "newest = ''edited_7_x.png''" using r(3,4) by auto
  with r(1,2) show ?thesis by (simp add: startswith_def)
qed

section \<open>Artifact names, persisted and selected\<close>

text \<open>A relative name is joined to the upload directory with one separator.\<close>

lemma path_join_uploads_relative:
  "c \<noteq> CHR ''/'' \<Longrightarrow> path_join UPLOAD_DIR (c # x) = ''uploads/'' @ c # x"
  by (simp add: path_join_def UPLOAD_DIR_def startswith_def endswith_def)

lemma four_cases: "(\<forall>j<4. P (j::nat)) = (P 0 \<and> P 1 \<and> P 2 \<and> P 3)"
  by (auto simp: numeral_eq_Suc less_Suc_eq)

text \<open>
  A generation whose composite decodes and whose four saves succeed: the result, and the
  directory it leaves, written out.
\<close>

lemma generate_image_compute_split:
  assumes "W = int (width g)" and "H = int (height g)"
    and "boxes = [(0, 0, 0 + W div 2, 0 + H div 2), (W div 2, 0, W div 2 + W div 2, 0 + H div 2),
                  (0, H div 2, 0 + W div 2, H div 2 + H div 2),
                  (W div 2, H div 2, W div 2 + W div 2, H div 2 + H div 2)]"
    and "stem = ''image_'' @ now @ ''_'' @ take 8 uuid"
    and "names = [stem @ ''_1_1.png'', stem @ ''_1_2.png'', stem @ ''_1_3.png'', stem @ ''_1_4.png'']"
    and "quads = map (\<lambda>b. remove_white_borders (crop g b) 240) boxes"
    and "\<forall>i<4. save_error (path_join UPLOAD_DIR (names ! i)) (quads ! i) = None"
  shows "generate_image_compute save_error now uuid (InlineImage (Encoded g)) fs =
           (GenSuccess (map (\<lambda>n. (n, ''image/png'')) names) ''Successfully generated 4 images''
              (take 8 uuid),
            (fs(path_join UPLOAD_DIR (stem @ ''_1.png'') \<mapsto> Encoded g,
                path_join UPLOAD_DIR (names ! 0) \<mapsto> Encoded (quads ! 0),
                path_join UPLOAD_DIR (names ! 1) \<mapsto> Encoded (quads ! 1),
                path_join UPLOAD_DIR (names ! 2) \<mapsto> Encoded (quads ! 2),
                path_join UPLOAD_DIR (names ! 3) \<mapsto> Encoded (quads ! 3)))
              (path_join UPLOAD_DIR (stem @ ''_1.png'') := None))"
proof -
  let ?composite = "stem @ ''_1.png''"
  let ?fs1 = "fs(path_join UPLOAD_DIR ?composite \<mapsto> Encoded g)"
  have sp: "splitext ?composite = (stem @ ''_1'', ''.png'')"
    using splitext_png [of "CHR ''1''" "stem @ ''_''"] by simp
  have n: "names = [(stem @ ''_1'') @ ''_1'' @ ''.png'', (stem @ ''_1'') @ ''_2'' @ ''.png'',
                    (stem @ ''_1'') @ ''_3'' @ ''.png'', (stem @ ''_1'') @ ''_4'' @ ''.png'']"
    using assms(5) by simp
  have f: "?fs1 (path_join UPLOAD_DIR ?composite) = Some (Encoded g)" by simp
  have sq: "split_grid_image save_error ?composite True ?fs1 =
           (SplitSuccess (map2 (\<lambda>n q. SplitEntry n (Encoded q) ''image/png'') names quads)
              ''Successfully split grid into 4 images'',
            (let fs4 = ?fs1(path_join UPLOAD_DIR (names ! 0) \<mapsto> Encoded (quads ! 0),
                          path_join UPLOAD_DIR (names ! 1) \<mapsto> Encoded (quads ! 1),
                          path_join UPLOAD_DIR (names ! 2) \<mapsto> Encoded (quads ! 2),
                          path_join UPLOAD_DIR (names ! 3) \<mapsto> Encoded (quads ! 3))
             in if True then fs4(path_join UPLOAD_DIR ?composite := None) else fs4))"
    using f sp assms(1) assms(2) assms(3) n assms(6) assms(7)
    by (rule split_grid_image_quadrants)
  have l: "length names = 4" "length quads = 4" using assms(3,5,6) by simp_all
  have m: "map (\<lambda>e. (entry_filename e, ''image/png''))
             (map2 (\<lambda>n q. SplitEntry n (Encoded q) ''image/png'') names quads) =
           map (\<lambda>n. (n, ''image/png'')) names"
    using assms(3,5,6) by simp
  have c: "''image_'' @ (now @ ''_'' @ take 8 uuid) @ ''_'' @ str_nat (0 + 1) @ ''.png'' = ?composite"
    using assms(4) by (simp add: str_nat_digits)
  show ?thesis
    unfolding generate_image_compute_def Let_def model_response.case c sq prod.case
      split_result.case m
    using l by (simp add: str_nat_digits)
qed


lemma generate_image_compute_persists:
  assumes "W = int (width g)" and "H = int (height g)"
    and "boxes = [(0, 0, 0 + W div 2, 0 + H div 2), (W div 2, 0, W div 2 + W div 2, 0 + H div 2),
                  (0, H div 2, 0 + W div 2, H div 2 + H div 2),
                  (W div 2, H div 2, W div 2 + W div 2, H div 2 + H div 2)]"
    and "stem = ''image_'' @ now @ ''_'' @ take 8 uuid"
    and "names = [stem @ ''_1_1.png'', stem @ ''_1_2.png'', stem @ ''_1_3.png'', stem @ ''_1_4.png'']"
    and "quads = map (\<lambda>b. remove_white_borders (crop g b) 240) boxes"
    and "paths = map (path_join UPLOAD_DIR) names"
    and "\<forall>i<4. save_error (paths ! i) (quads ! i) = None"
    and "out = generate_image_compute save_error now uuid (InlineImage (Encoded g)) fs"
  shows "fst out = GenSuccess (map (\<lambda>n. (n, ''image/png'')) names)
                     ''Successfully generated 4 images'' (take 8 uuid) \<and>
         (\<forall>i<4. snd out (paths ! i) = Some (Encoded (quads ! i))) \<and>
         snd out (path_join UPLOAD_DIR (stem @ ''_1.png'')) = None \<and>
         (\<forall>p. p \<notin> set paths \<and> p \<noteq> path_join UPLOAD_DIR (stem @ ''_1.png'') \<longrightarrow> snd out p = fs p)"
proof -
  have sv: "\<forall>i<4. save_error (path_join UPLOAD_DIR (names ! i)) (quads ! i) = None"
    using assms(8) unfolding assms(7) four_cases by (simp add: assms(5))
  have r: "out =
           (GenSuccess (map (\<lambda>n. (n, ''image/png'')) names) ''Successfully generated 4 images''
              (take 8 uuid),
            (fs(path_join UPLOAD_DIR (stem @ ''_1.png'') \<mapsto> Encoded g,
                path_join UPLOAD_DIR (names ! 0) \<mapsto> Encoded (quads ! 0),
                path_join UPLOAD_DIR (names ! 1) \<mapsto> Encoded (quads ! 1),
                path_join UPLOAD_DIR (names ! 2) \<mapsto> Encoded (quads ! 2),
                path_join UPLOAD_DIR (names ! 3) \<mapsto> Encoded (quads ! 3)))
              (path_join UPLOAD_DIR (stem @ ''_1.png'') := None))"
    unfolding assms(9)
    using assms(1) assms(2) assms(3) assms(4) assms(5) assms(6) sv
    by (rule generate_image_compute_split)
  have p: "path_join UPLOAD_DIR (stem @ x) = ''uploads/'' @ stem @ x" for x
    unfolding assms(4) using path_join_uploads_relative [of "CHR ''i''"] by simp
  show ?thesis
    unfolding r four_cases assms(7) assms(5)
    by (simp add: p)
qed

text \<open>
  A generation whose composite cannot be opened as an image (the branch of line 204, commented
  \<^verbatim>\<open>If splitting failed, return original\<close>): the composite stays on disk and is the one image reported.
\<close>

lemma generate_image_compute_unsplit:
  assumes "image_bytes = Empty \<or> image_bytes = Undecodable e"
  shows "generate_image_compute save_error now uuid (InlineImage image_bytes) fs =
           (GenSuccess [(''image_'' @ now @ ''_'' @ take 8 uuid @ ''_1.png'', ''image/png'')]
              ''Successfully generated 1 images'' (take 8 uuid),
            fs(path_join UPLOAD_DIR (''image_'' @ now @ ''_'' @ take 8 uuid @ ''_1.png'') \<mapsto> image_bytes))"
  using assms
  by (auto simp: generate_image_compute_def split_grid_image_def Let_def str_nat_digits)

text \<open>Every successful generation reports either the four quadrant names or the composite's.\<close>

lemma generate_image_compute_names:
  assumes "generate_image_compute save_error now uuid response fs = (GenSuccess images msg uid, fs_out)"
  shows "uid = take 8 uuid \<and>
         (map fst images =
            [''image_'' @ now @ ''_'' @ take 8 uuid @ ''_1_1.png'',
             ''image_'' @ now @ ''_'' @ take 8 uuid @ ''_1_2.png'',
             ''image_'' @ now @ ''_'' @ take 8 uuid @ ''_1_3.png'',
             ''image_'' @ now @ ''_'' @ take 8 uuid @ ''_1_4.png''] \<or>
          map fst images = [''image_'' @ now @ ''_'' @ take 8 uuid @ ''_1.png''])"
proof -
  let ?composite = "''image_'' @ now @ ''_'' @ take 8 uuid @ ''_1.png''"
  have c: "''image_'' @ (now @ ''_'' @ take 8 uuid) @ ''_'' @ str_nat (0 + 1) @ ''.png'' = ?composite"
    by (simp add: str_nat_digits)
  have sp: "splitext ?composite = (''image_'' @ now @ ''_'' @ take 8 uuid @ ''_1'', ''.png'')"
    using splitext_png [of "CHR ''1''" "''image_'' @ now @ ''_'' @ take 8 uuid @ ''_''"] by simp
  obtain image_bytes where resp: "response = InlineImage image_bytes"
    using assms by (cases response) (simp_all add: generate_image_compute_def Let_def)
  obtain sr fs_mid where s: "split_grid_image save_error ?composite True
      (fs(path_join UPLOAD_DIR ?composite \<mapsto> image_bytes)) = (sr, fs_mid)"
    by (cases "split_grid_image save_error ?composite True
      (fs(path_join UPLOAD_DIR ?composite \<mapsto> image_bytes))") auto
  show ?thesis
  proof (cases sr)
    case (SplitFailure err)
    then show ?thesis
      using assms unfolding generate_image_compute_def Let_def resp model_response.case c s
      by auto
  next
    case (SplitSuccess es m)
    have n: "map entry_filename es =
        [(''image_'' @ now @ ''_'' @ take 8 uuid @ ''_1'') @ ''_1'' @ ''.png'',
         (''image_'' @ now @ ''_'' @ take 8 uuid @ ''_1'') @ ''_2'' @ ''.png'',
         (''image_'' @ now @ ''_'' @ take 8 uuid @ ''_1'') @ ''_3'' @ ''.png'',
         (''image_'' @ now @ ''_'' @ take 8 uuid @ ''_1'') @ ''_4'' @ ''.png'']"
      using split_grid_image_names [OF s [unfolded SplitSuccess] sp] .
    have "images = map (\<lambda>e. (entry_filename e, ''image/png'')) es \<and> uid = take 8 uuid"
      using assms unfolding generate_image_compute_def Let_def resp model_response.case c s
        SplitSuccess
      by auto
    then have "map fst images = map entry_filename es \<and> uid = take 8 uuid"
      by (simp add: comp_def)
    then show ?thesis using n by simp
  qed
qed

text \<open>The name and the file a successful edit leaves.\<close>

lemma edit_image_compute_name:
  assumes "edit_image_compute guess_type stamp first second edit_prompt (Some path) dir
       = (EditSuccess fname mime msg, dir_out)"
  shows "let filepath = (if dir (path_join UPLOAD_DIR path) = None then path
                         else path_join UPLOAD_DIR path)
         in fname = ''edited_'' @ stamp @ ''_'' @
                      fst (splitext (basename filepath)) @ snd (splitext (basename filepath)) \<and>
            fname = ''edited_'' @ stamp @ ''_'' @ basename filepath \<and>
            (\<exists>bytes. bytes \<noteq> Empty \<and> dir_out = dir(path_join UPLOAD_DIR fname \<mapsto> bytes))"
  using assms
  by (auto simp: edit_image_compute_def Let_def splitext_append dest: splitext_parts
      split: if_splits option.splits file_content.splits model_response.splits prod.splits)

text \<open>The edit endpoint on a directory that holds an edited \<^verbatim>\<open>.png\<close>, and on one that holds none.\<close>

lemma list_images_no_match:
  assumes "\<forall>(g, u) \<in> set entries. \<not> (startswith g prefix \<and> endswith g ''.png'')"
  shows "list_images (Some entries) prefix limit = []"
proof -
  have "filter (\<lambda>(f, t). endswith f ''.png'' \<and> startswith f prefix) entries = []"
    using assms by (auto simp: filter_empty_conv)
  then show ?thesis by (simp add: list_images_def py_take_def)
qed

lemma list_images_None: "list_images None prefix limit = []"
  by (simp add: list_images_def)


lemma edit_image_selects_edited:
  assumes "env 0 = Some entries"
    and "(''edited_'' @ stamp @ ''_'' @ b, t) \<in> set entries"
    and "endswith b ''.png''"
    and "\<forall>(g, u) \<in> set entries.
           g \<noteq> ''edited_'' @ stamp @ ''_'' @ b \<and> startswith g ''edited_'' \<and> endswith g ''.png'' \<longrightarrow> u < t"
    and "truthy (image_to_edit (EditRequest edit_prompt image_filename sid) memory)"
    and "runner (''Please edit the image '' @
           the (image_to_edit (EditRequest edit_prompt image_filename sid) memory) @
           ''. Edit request: '' @ edit_prompt) memory = (AgentEvents events, memory_after)"
  shows "edit_image (EditRequest edit_prompt image_filename sid) fresh runner env memory =
     Some (Inr (EditResponse True
            (if agent_message events = [] \<or> edit_error_indicator (agent_message events)
             then ''Image edited successfully'' else agent_message events)
            (''edited_'' @ stamp @ ''_'' @ b) (if truthy sid then the sid else fresh)),
           set_last_edited (''edited_'' @ stamp @ ''_'' @ b) memory_after)"
proof -
  let ?fname = "''edited_'' @ stamp @ ''_'' @ b"
  have e: "endswith ?fname ''.png''"
    using endswith_append [OF assms(3), of "''edited_'' @ stamp @ ''_''"] by simp
  have s: "startswith ?fname ''edited_''"
    using startswith_append [of "''edited_''" "stamp @ ''_'' @ b"] by simp
  have ne: "list_images (env 0) ''edited_'' 1 \<noteq> []"
    using list_images_nonempty [OF assms(2) e s, of 1] assms(1) by simp
  then obtain newest others where l: "list_images (env 0) ''edited_'' 1 = newest # others"
    by (cases "list_images (env 0) ''edited_'' 1") auto
  have "length (newest # others) \<le> nat 1"
    using list_images_length [of 1 "env 0" "''edited_''"] l by simp
  then have o: "others = []" by simp
  obtain tn where n: "(newest, tn) \<in> set entries" "endswith newest ''.png''"
    "startswith newest ''edited_''"
    "\<forall>(g, u) \<in> set entries. endswith g ''.png'' \<and> startswith g ''edited_'' \<longrightarrow> u \<le> tn"
    using list_images_hd_newest [of entries "''edited_''" 1 newest others] l assms(1) by auto
  have le: "t \<le> tn" using n(4) assms(2) e s by blast
  have "newest = ?fname"
  proof (rule ccontr)
    assume d: "newest \<noteq> ?fname"
    with assms(4) n(1,2,3) have "tn < t" by blast
    with le show False by simp
  qed
  with l o have w: "list_images (env 0) ''edited_'' 1 = [?fname]" by simp
  have "wait_for_images env ''edited_'' 1 90 2 = Some (?fname # [], 0)"
    using wait_for_images_found [of env "''edited_''" 1 90 2] ne w by simp
  then show ?thesis
    using edit_image_found [where runner = runner and env = env and memory = memory
        and edit_prompt = edit_prompt and image_filename = image_filename and sid = sid
        and fresh = fresh, OF assms(5) assms(6)]
    by blast
qed

lemma edit_image_ignores_unedited:
  assumes "\<forall>k es. env k = Some es \<longrightarrow>
             (\<forall>(g, u) \<in> set es. \<not> (startswith g ''edited_'' \<and> endswith g ''.png''))"
    and "truthy (image_to_edit (EditRequest edit_prompt image_filename sid) memory)"
    and "runner (''Please edit the image '' @
           the (image_to_edit (EditRequest edit_prompt image_filename sid) memory) @
           ''. Edit request: '' @ edit_prompt) memory = (AgentEvents events, memory_after)"
  shows "edit_image (EditRequest edit_prompt image_filename sid) fresh runner env memory =
     Some (Inl (HTTPException 500 ''Edited image not found. The agent may still be processing.''),
           memory_after)"
proof -
  have none: "list_images (env k) ''edited_'' 1 = []" for k
  proof (cases "env k")
    case None
    then show ?thesis by (simp add: list_images_None)
  next
    case (Some es)
    with assms(1) have "\<forall>(g, u) \<in> set es. \<not> (startswith g ''edited_'' \<and> endswith g ''.png'')"
      by blast
    then show ?thesis unfolding Some by (rule list_images_no_match)
  qed
  obtain fs n where r: "wait_for_images env ''edited_'' 1 90 2 = Some (fs, n)"
    "fs = list_images (env n) ''edited_'' 1"
    using wait_for_images_returns [of 2 env "''edited_''" 1 90] by auto
  then have "wait_for_images env ''edited_'' 1 90 2 = Some ([], n)" using none by simp
  then show ?thesis
    using edit_image_empty [where runner = runner and env = env and memory = memory
        and edit_prompt = edit_prompt and image_filename = image_filename and sid = sid
        and fresh = fresh, OF assms(2) assms(3)]
    by blast
qed


text \<open>
  Claim C8, as amended. Generation, composite split: when the payload decodes to an image
  \<open>g\<close> and the four saves succeed, \<^verbatim>\<open>generate_image_compute\<close> reports exactly the four names
  \<^verbatim>\<open>image_<now>_<first 8 of uuid>_1_<ordinal>.png\<close>, ordinals 1 to 4 in order (\<open>now\<close> is the clock's
  \<^verbatim>\<open>%Y%m%d_%H%M%S_%f\<close> text, the \<open>1\<close> is \<open>i + 1\<close> of the only composite); the directory it leaves
  holds under each of these names the trimmed quadrant of \<open>g\<close>, no longer holds the composite
  \<^verbatim>\<open>image_<now>_<first 8 of uuid>_1.png\<close>, and is unchanged elsewhere. Generation, composite
  not split: when the payload is empty or does not decode, the generation succeeds all the same,
  keeps the composite on disk and reports it as \<^verbatim>\<open>image_<now>_<first 8 of uuid>_1.png\<close>, a name
  with no ordinal. Every successful generation reports one of these two lists of names.
  Editing: whenever \<^verbatim>\<open>edit_image_compute\<close> succeeds, the name it reports is
  \<^verbatim>\<open>edited_<stamp>_<name><ext>\<close> where \<open>(name, ext)\<close> splits the source's base name, which is
  \<^verbatim>\<open>edited_<stamp>_<source base name>\<close>, and the directory it leaves is the one it found with
  non-empty bytes written under that name. Selection: when the directory the endpoint
  \<^verbatim>\<open>edit_image\<close> lists first holds \<^verbatim>\<open>edited_<stamp>_<b>\<close> with \<open>b\<close> ending in \<^verbatim>\<open>.png\<close>, and every
  other \<^verbatim>\<open>.png\<close> whose name starts with \<^verbatim>\<open>edited_\<close> is older, the endpoint answers with that
  name and records it as the last edited image, whatever else the directory holds; when no
  listing ever holds a \<^verbatim>\<open>.png\<close> whose name starts with \<^verbatim>\<open>edited_\<close>, the endpoint answers 500.
\<close>

theorem artifact_naming_convention:
  "(let W = int (width g); H = int (height g);
        stem = ''image_'' @ now @ ''_'' @ take 8 uuid;
        names = [stem @ ''_1_1.png'', stem @ ''_1_2.png'', stem @ ''_1_3.png'', stem @ ''_1_4.png''];
        quads = map (\<lambda>b. remove_white_borders (crop g b) 240)
                  [(0, 0, 0 + W div 2, 0 + H div 2), (W div 2, 0, W div 2 + W div 2, 0 + H div 2),
                   (0, H div 2, 0 + W div 2, H div 2 + H div 2),
                   (W div 2, H div 2, W div 2 + W div 2, H div 2 + H div 2)];
        paths = map (path_join UPLOAD_DIR) names;
        out = generate_image_compute save_error now uuid (InlineImage (Encoded g)) fs
    in (\<forall>i<4. save_error (paths ! i) (quads ! i) = None) \<longrightarrow>
         fst out = GenSuccess (map (\<lambda>n. (n, ''image/png'')) names)
                     ''Successfully generated 4 images'' (take 8 uuid) \<and>
         (\<forall>i<4. snd out (paths ! i) = Some (Encoded (quads ! i))) \<and>
         snd out (path_join UPLOAD_DIR (stem @ ''_1.png'')) = None \<and>
         (\<forall>p. p \<notin> set paths \<and> p \<noteq> path_join UPLOAD_DIR (stem @ ''_1.png'') \<longrightarrow> snd out p = fs p)) \<and>
   (image_bytes = Empty \<or> image_bytes = Undecodable e \<longrightarrow>
      generate_image_compute save_error now uuid (InlineImage image_bytes) fs =
        (GenSuccess [(''image_'' @ now @ ''_'' @ take 8 uuid @ ''_1.png'', ''image/png'')]
           ''Successfully generated 1 images'' (take 8 uuid),
         fs(path_join UPLOAD_DIR (''image_'' @ now @ ''_'' @ take 8 uuid @ ''_1.png'') \<mapsto> image_bytes))) \<and>
   (generate_image_compute save_error now uuid response fs = (GenSuccess images msg uid, fs_out) \<longrightarrow>
      uid = take 8 uuid \<and>
      (map fst images =
         [''image_'' @ now @ ''_'' @ take 8 uuid @ ''_1_1.png'',
          ''image_'' @ now @ ''_'' @ take 8 uuid @ ''_1_2.png'',
          ''image_'' @ now @ ''_'' @ take 8 uuid @ ''_1_3.png'',
          ''image_'' @ now @ ''_'' @ take 8 uuid @ ''_1_4.png''] \<or>
       map fst images = [''image_'' @ now @ ''_'' @ take 8 uuid @ ''_1.png''])) \<and>
   (edit_image_compute guess_type stamp first second edit_prompt (Some path) dir
       = (EditSuccess fname mime note, dir_out) \<longrightarrow>
     (let filepath = (if dir (path_join UPLOAD_DIR path) = None then path
                      else path_join UPLOAD_DIR path)
      in fname = ''edited_'' @ stamp @ ''_'' @
                   fst (splitext (basename filepath)) @ snd (splitext (basename filepath)) \<and>
         fname = ''edited_'' @ stamp @ ''_'' @ basename filepath \<and>
         (\<exists>bytes. bytes \<noteq> Empty \<and> dir_out = dir(path_join UPLOAD_DIR fname \<mapsto> bytes)))) \<and>
   (env 0 = Some entries \<and> (''edited_'' @ stamp @ ''_'' @ b, t) \<in> set entries \<and>
    endswith b ''.png'' \<and>
    (\<forall>(g, u) \<in> set entries.
        g \<noteq> ''edited_'' @ stamp @ ''_'' @ b \<and> startswith g ''edited_'' \<and> endswith g ''.png'' \<longrightarrow> u < t) \<and>
    truthy (image_to_edit (EditRequest edit_prompt image_filename sid) memory) \<and>
    runner (''Please edit the image '' @
            the (image_to_edit (EditRequest edit_prompt image_filename sid) memory) @
            ''. Edit request: '' @ edit_prompt) memory = (AgentEvents events, memory_after) \<longrightarrow>
      edit_image (EditRequest edit_prompt image_filename sid) fresh runner env memory =
        Some (Inr (EditResponse True
               (if agent_message events = [] \<or> edit_error_indicator (agent_message events)
                then ''Image edited successfully'' else agent_message events)
               (''edited_'' @ stamp @ ''_'' @ b) (if truthy sid then the sid else fresh)),
              set_last_edited (''edited_'' @ stamp @ ''_'' @ b) memory_after)) \<and>
   ((\<forall>k es. env k = Some es \<longrightarrow>
       (\<forall>(g, u) \<in> set es. \<not> (startswith g ''edited_'' \<and> endswith g ''.png''))) \<and>
    truthy (image_to_edit (EditRequest edit_prompt image_filename sid) memory) \<and>
    runner (''Please edit the image '' @
            the (image_to_edit (EditRequest edit_prompt image_filename sid) memory) @
            ''. Edit request: '' @ edit_prompt) memory = (AgentEvents events, memory_after) \<longrightarrow>
      edit_image (EditRequest edit_prompt image_filename sid) fresh runner env memory =
        Some (Inl (HTTPException 500 ''Edited image not found. The agent may still be processing.''),
              memory_after))"
proof (intro conjI)
  show "let W = int (width g); H = int (height g);
        stem = ''image_'' @ now @ ''_'' @ take 8 uuid;
        names = [stem @ ''_1_1.png'', stem @ ''_1_2.png'', stem @ ''_1_3.png'', stem @ ''_1_4.png''];
        quads = map (\<lambda>b. remove_white_borders (crop g b) 240)
                  [(0, 0, 0 + W div 2, 0 + H div 2), (W div 2, 0, W div 2 + W div 2, 0 + H div 2),
                   (0, H div 2, 0 + W div 2, H div 2 + H div 2),
                   (W div 2, H div 2, W div 2 + W div 2, H div 2 + H div 2)];
        paths = map (path_join UPLOAD_DIR) names;
        out = generate_image_compute save_error now uuid (InlineImage (Encoded g)) fs
    in (\<forall>i<4. save_error (paths ! i) (quads ! i) = None) \<longrightarrow>
         fst out = GenSuccess (map (\<lambda>n. (n, ''image/png'')) names)
                     ''Successfully generated 4 images'' (take 8 uuid) \<and>
         (\<forall>i<4. snd out (paths ! i) = Some (Encoded (quads ! i))) \<and>
         snd out (path_join UPLOAD_DIR (stem @ ''_1.png'')) = None \<and>
         (\<forall>p. p \<notin> set paths \<and> p \<noteq> path_join UPLOAD_DIR (stem @ ''_1.png'') \<longrightarrow> snd out p = fs p)"
    unfolding Let_def
    by (intro impI, rule generate_image_compute_persists [OF refl refl refl refl refl refl refl _ refl])
next
  show "image_bytes = Empty \<or> image_bytes = Undecodable e \<longrightarrow>
      generate_image_compute save_error now uuid (InlineImage image_bytes) fs =
        (GenSuccess [(''image_'' @ now @ ''_'' @ take 8 uuid @ ''_1.png'', ''image/png'')]
           ''Successfully generated 1 images'' (take 8 uuid),
         fs(path_join UPLOAD_DIR (''image_'' @ now @ ''_'' @ take 8 uuid @ ''_1.png'') \<mapsto> image_bytes))"
    using generate_image_compute_unsplit by blast
next
  show "generate_image_compute save_error now uuid response fs = (GenSuccess images msg uid, fs_out) \<longrightarrow>
      uid = take 8 uuid \<and>
      (map fst images =
         [''image_'' @ now @ ''_'' @ take 8 uuid @ ''_1_1.png'',
          ''image_'' @ now @ ''_'' @ take 8 uuid @ ''_1_2.png'',
          ''image_'' @ now @ ''_'' @ take 8 uuid @ ''_1_3.png'',
          ''image_'' @ now @ ''_'' @ take 8 uuid @ ''_1_4.png''] \<or>
       map fst images = [''image_'' @ now @ ''_'' @ take 8 uuid @ ''_1.png''])"
    using generate_image_compute_names by blast
next
  show "edit_image_compute guess_type stamp first second edit_prompt (Some path) dir
       = (EditSuccess fname mime note, dir_out) \<longrightarrow>
     (let filepath = (if dir (path_join UPLOAD_DIR path) = None then path
                      else path_join UPLOAD_DIR path)
      in fname = ''edited_'' @ stamp @ ''_'' @
                   fst (splitext (basename filepath)) @ snd (splitext (basename filepath)) \<and>
         fname = ''edited_'' @ stamp @ ''_'' @ basename filepath \<and>
         (\<exists>bytes. bytes \<noteq> Empty \<and> dir_out = dir(path_join UPLOAD_DIR fname \<mapsto> bytes)))"
    by (intro impI) (rule edit_image_compute_name)
next
  show "env 0 = Some entries \<and> (''edited_'' @ stamp @ ''_'' @ b, t) \<in> set entries \<and>
    endswith b ''.png'' \<and>
    (\<forall>(g, u) \<in> set entries.
        g \<noteq> ''edited_'' @ stamp @ ''_'' @ b \<and> startswith g ''edited_'' \<and> endswith g ''.png'' \<longrightarrow> u < t) \<and>
    truthy (image_to_edit (EditRequest edit_prompt image_filename sid) memory) \<and>
    runner (''Please edit the image '' @
            the (image_to_edit (EditRequest edit_prompt image_filename sid) memory) @
            ''. Edit request: '' @ edit_prompt) memory = (AgentEvents events, memory_after) \<longrightarrow>
      edit_image (EditRequest edit_prompt image_filename sid) fresh runner env memory =
        Some (Inr (EditResponse True
               (if agent_message events = [] \<or> edit_error_indicator (agent_message events)
                then ''Image edited successfully'' else agent_message events)
               (''edited_'' @ stamp @ ''_'' @ b) (if truthy sid then the sid else fresh)),
              set_last_edited (''edited_'' @ stamp @ ''_'' @ b) memory_after)"
    by (intro impI, elim conjE, rule edit_image_selects_edited)
next
  show "(\<forall>k es. env k = Some es \<longrightarrow>
       (\<forall>(g, u) \<in> set es. \<not> (startswith g ''edited_'' \<and> endswith g ''.png''))) \<and>
    truthy (image_to_edit (EditRequest edit_prompt image_filename sid) memory) \<and>
    runner (''Please edit the image '' @
            the (image_to_edit (EditRequest edit_prompt image_filename sid) memory) @
            ''. Edit request: '' @ edit_prompt) memory = (AgentEvents events, memory_after) \<longrightarrow>
      edit_image (EditRequest edit_prompt image_filename sid) fresh runner env memory =
        Some (Inl (HTTPException 500 ''Edited image not found. The agent may still be processing.''),
              memory_after)"
    by (intro impI, elim conjE, rule edit_image_ignores_unedited)
qed


text \<open>The two directories, as listed.\<close>

lemma edit_directory_facts:
  "edit_directory 0 = Some [(''image_old_1.png'', 8), (''edited_20240101_120000_grid.png'', 5),
           (''edited_20231231_235959_grid.png'', 2)]"
  "unedited_directory k = Some [(''image_old_1.png'', 8), (''edited_20240101_120000_p.jpg'', 9)]"
  by (simp_all add: edit_directory_def unedited_directory_def)

text \<open>
  The theorem at concrete inputs: the four-colour composite generated into an empty directory,
  an empty payload, an edit of \<^verbatim>\<open>grid.png\<close>, and the edit endpoint on the two directories.
\<close>

theorem artifact_naming_convention_witness:
  "fst (generate_image_compute always_saves ''20240101_120000_000001''
          ''1a2b3c4d-0000-4000-8000-000000000000'' (InlineImage (Encoded four_colour_grid)) no_files) =
     GenSuccess
       [(''image_20240101_120000_000001_1a2b3c4d_1_1.png'', ''image/png''),
        (''image_20240101_120000_000001_1a2b3c4d_1_2.png'', ''image/png''),
        (''image_20240101_120000_000001_1a2b3c4d_1_3.png'', ''image/png''),
        (''image_20240101_120000_000001_1a2b3c4d_1_4.png'', ''image/png'')]
       ''Successfully generated 4 images'' ''1a2b3c4d'' \<and>
   snd (generate_image_compute always_saves ''20240101_120000_000001''
          ''1a2b3c4d-0000-4000-8000-000000000000'' (InlineImage (Encoded four_colour_grid)) no_files)
       ''uploads/image_20240101_120000_000001_1a2b3c4d_1_2.png'' =
     Some (Encoded (remove_white_borders (crop four_colour_grid (2, 0, 4, 2)) 240)) \<and>
   snd (generate_image_compute always_saves ''20240101_120000_000001''
          ''1a2b3c4d-0000-4000-8000-000000000000'' (InlineImage (Encoded four_colour_grid)) no_files)
       ''uploads/image_20240101_120000_000001_1a2b3c4d_1.png'' = None \<and>
   fst (generate_image_compute always_saves ''20240101_120000_000001''
          ''1a2b3c4d-0000-4000-8000-000000000000'' (InlineImage Empty) no_files) =
     GenSuccess [(''image_20240101_120000_000001_1a2b3c4d_1.png'', ''image/png'')]
       ''Successfully generated 1 images'' ''1a2b3c4d'' \<and>
   fst (edit_image_compute png_guess ''20240101_120000''
          (InlineImage (Encoded four_colour_grid)) NoImage ''make it red'' (Some ''grid.png'') grid_only) =
     EditSuccess ''edited_20240101_120000_grid.png'' ''image/png''
       ''Successfully edited image. Saved as edited_20240101_120000_grid.png'' \<and>
   snd (edit_image_compute png_guess ''20240101_120000''
          (InlineImage (Encoded four_colour_grid)) NoImage ''make it red'' (Some ''grid.png'') grid_only)
       ''uploads/edited_20240101_120000_grid.png'' = Some (Encoded four_colour_grid) \<and>
   edit_image (EditRequest ''make it red'' (Some ''grid.png'') None) ''s1'' silent_runner edit_directory
       init_memory =
     Some (Inr (EditResponse True ''Image edited successfully'' ''edited_20240101_120000_grid.png'' ''s1''),
           set_last_edited ''edited_20240101_120000_grid.png'' init_memory) \<and>
   edit_image (EditRequest ''make it red'' (Some ''grid.png'') None) ''s1'' silent_runner
       unedited_directory init_memory =
     Some (Inl (HTTPException 500 ''Edited image not found. The agent may still be processing.''),
           init_memory)"
proof -
  let ?now = "''20240101_120000_000001''"
  let ?uuid = "''1a2b3c4d-0000-4000-8000-000000000000''"
  have p: "path_join UPLOAD_DIR (CHR ''i'' # x) = ''uploads/'' @ CHR ''i'' # x" for x
    by (rule path_join_uploads_relative) simp
  have a: "fst (generate_image_compute always_saves ?now ?uuid (InlineImage (Encoded four_colour_grid))
              no_files) =
     GenSuccess
       [(''image_20240101_120000_000001_1a2b3c4d_1_1.png'', ''image/png''),
        (''image_20240101_120000_000001_1a2b3c4d_1_2.png'', ''image/png''),
        (''image_20240101_120000_000001_1a2b3c4d_1_3.png'', ''image/png''),
        (''image_20240101_120000_000001_1a2b3c4d_1_4.png'', ''image/png'')]
       ''Successfully generated 4 images'' ''1a2b3c4d'' \<and>
     snd (generate_image_compute always_saves ?now ?uuid (InlineImage (Encoded four_colour_grid))
              no_files)
       ''uploads/image_20240101_120000_000001_1a2b3c4d_1_2.png'' =
     Some (Encoded (remove_white_borders (crop four_colour_grid (2, 0, 4, 2)) 240)) \<and>
     snd (generate_image_compute always_saves ?now ?uuid (InlineImage (Encoded four_colour_grid))
              no_files)
       ''uploads/image_20240101_120000_000001_1a2b3c4d_1.png'' = None"
    using artifact_naming_convention [where g = four_colour_grid and save_error = always_saves
        and now = ?now and uuid = ?uuid and fs = no_files, THEN conjunct1]
    by (simp add: Let_def four_cases always_saves_def four_colour_grid_size p)
  have u: "generate_image_compute always_saves ?now ?uuid (InlineImage Empty) no_files =
        (GenSuccess [(''image_'' @ ?now @ ''_'' @ take 8 ?uuid @ ''_1.png'', ''image/png'')]
           ''Successfully generated 1 images'' (take 8 ?uuid),
         no_files(path_join UPLOAD_DIR (''image_'' @ ?now @ ''_'' @ take 8 ?uuid @ ''_1.png'') \<mapsto> Empty))"
    using artifact_naming_convention [where image_bytes = Empty and save_error = always_saves
        and now = ?now and uuid = ?uuid and fs = no_files, THEN conjunct2, THEN conjunct1]
    by blast
  have c: "take 8 ?uuid = take 8 ?uuid \<and>
      (map fst [(''image_'' @ ?now @ ''_'' @ take 8 ?uuid @ ''_1.png'', ''image/png'')] =
         [''image_'' @ ?now @ ''_'' @ take 8 ?uuid @ ''_1_1.png'',
          ''image_'' @ ?now @ ''_'' @ take 8 ?uuid @ ''_1_2.png'',
          ''image_'' @ ?now @ ''_'' @ take 8 ?uuid @ ''_1_3.png'',
          ''image_'' @ ?now @ ''_'' @ take 8 ?uuid @ ''_1_4.png''] \<or>
       map fst [(''image_'' @ ?now @ ''_'' @ take 8 ?uuid @ ''_1.png'', ''image/png'')] =
         [''image_'' @ ?now @ ''_'' @ take 8 ?uuid @ ''_1.png''])"
    using artifact_naming_convention [where response = "InlineImage Empty"
        and save_error = always_saves and now = ?now and uuid = ?uuid and fs = no_files,
        THEN conjunct2, THEN conjunct2, THEN conjunct1] u
    by blast
  have ev: "edit_image_compute png_guess ''20240101_120000''
          (InlineImage (Encoded four_colour_grid)) NoImage ''make it red'' (Some ''grid.png'') grid_only =
     (EditSuccess ''edited_20240101_120000_grid.png'' ''image/png''
       ''Successfully edited image. Saved as edited_20240101_120000_grid.png'',
      grid_only(''uploads/edited_20240101_120000_grid.png'' \<mapsto> Encoded four_colour_grid))"
    by (simp add: edit_image_compute_def path_join_def UPLOAD_DIR_def startswith_def endswith_def
        grid_only_def basename_def rfind_def splitext_def Let_def png_guess_def)
  have d: "''edited_20240101_120000_grid.png'' = ''edited_'' @ ''20240101_120000'' @ ''_'' @
      basename (path_join UPLOAD_DIR ''grid.png'')"
    using artifact_naming_convention [where guess_type = png_guess
        and stamp = "''20240101_120000''" and first = "InlineImage (Encoded four_colour_grid)"
        and second = NoImage and edit_prompt = "''make it red''" and path = "''grid.png''"
        and dir = grid_only and fname = "''edited_20240101_120000_grid.png''",
        THEN conjunct2, THEN conjunct2, THEN conjunct2, THEN conjunct1] ev
    by (simp add: Let_def grid_only_def path_join_uploads)
  have t: "image_to_edit (EditRequest ''make it red'' (Some ''grid.png'') None) init_memory = Some ''grid.png''"
    by (simp add: image_to_edit_def py_or_def truthy_def)
  have en: "endswith ''grid.png'' ''.png''" by (simp add: endswith_def)
  have older: "\<forall>(g, u) \<in> set [(''image_old_1.png'', 8::int), (''edited_20240101_120000_grid.png'', 5),
           (''edited_20231231_235959_grid.png'', 2)].
        g \<noteq> ''edited_'' @ ''20240101_120000'' @ ''_'' @ ''grid.png'' \<and> startswith g ''edited_'' \<and>
        endswith g ''.png'' \<longrightarrow> u < 5"
    by (simp add: startswith_def)
  have sel: "edit_image (EditRequest ''make it red'' (Some ''grid.png'') None) ''s1'' silent_runner
       edit_directory init_memory =
        Some (Inr (EditResponse True
               (if agent_message [] = [] \<or> edit_error_indicator (agent_message [])
                then ''Image edited successfully'' else agent_message [])
               (''edited_'' @ ''20240101_120000'' @ ''_'' @ ''grid.png'')
               (if truthy None then the None else ''s1'')),
              set_last_edited (''edited_'' @ ''20240101_120000'' @ ''_'' @ ''grid.png'') init_memory)"
    using artifact_naming_convention [where env = edit_directory
        and entries = "[(''image_old_1.png'', 8), (''edited_20240101_120000_grid.png'', 5),
           (''edited_20231231_235959_grid.png'', 2)]"
        and stamp = "''20240101_120000''" and b = "''grid.png''" and t = 5
        and edit_prompt = "''make it red''" and image_filename = "Some ''grid.png''" and sid = None
        and memory = init_memory and memory_after = init_memory and runner = silent_runner
        and events = "[]" and fresh = "''s1''",
        THEN conjunct2, THEN conjunct2, THEN conjunct2, THEN conjunct2, THEN conjunct1]
      edit_directory_facts(1) en older t run_simps(4)
    by (simp add: truthy_def)
  have quiet: "\<forall>k es. unedited_directory k = Some es \<longrightarrow>
      (\<forall>(g, u) \<in> set es. \<not> (startswith g ''edited_'' \<and> endswith g ''.png''))"
    by (simp add: unedited_directory_def startswith_def endswith_def)
  have ign: "edit_image (EditRequest ''make it red'' (Some ''grid.png'') None) ''s1'' silent_runner
       unedited_directory init_memory =
     Some (Inl (HTTPException 500 ''Edited image not found. The agent may still be processing.''),
           init_memory)"
    using artifact_naming_convention [where env = unedited_directory
        and edit_prompt = "''make it red''" and image_filename = "Some ''grid.png''" and sid = None
        and memory = init_memory and memory_after = init_memory and runner = silent_runner
        and events = "[]" and fresh = "''s1''",
        THEN conjunct2, THEN conjunct2, THEN conjunct2, THEN conjunct2, THEN conjunct2]
      quiet t run_simps(4)
    by (simp add: truthy_def)
  show ?thesis
    using a u c ev d sel ign
    by (simp add: agent_message_def truthy_def)
qed

text \<open>
  Claim C8 as stated fails for a generation whose payload does not decode: the artifact it
  persists and reports is \<^verbatim>\<open>image_20240101_120000_000001_1a2b3c4d_1.png\<close>, whose name ends after
  the \<open>i\<close> field and carries no ordinal.
\<close>

theorem composite_reported_without_ordinal_counterexample:
  "fst (generate_image_compute always_saves ''20240101_120000_000001''
          ''1a2b3c4d-0000-4000-8000-000000000000'' (InlineImage (Undecodable ''not an image''))
          no_files) =
     GenSuccess [(''image_20240101_120000_000001_1a2b3c4d_1.png'', ''image/png'')]
       ''Successfully generated 1 images'' ''1a2b3c4d'' \<and>
   snd (generate_image_compute always_saves ''20240101_120000_000001''
          ''1a2b3c4d-0000-4000-8000-000000000000'' (InlineImage (Undecodable ''not an image''))
          no_files)
       ''uploads/image_20240101_120000_000001_1a2b3c4d_1.png'' = Some (Undecodable ''not an image'')"
proof -
  have p: "path_join UPLOAD_DIR (CHR ''i'' # x) = ''uploads/'' @ CHR ''i'' # x" for x
    by (rule path_join_uploads_relative) simp
  show ?thesis
    using generate_image_compute_unsplit [of "Undecodable ''not an image''" "''not an image''"
        always_saves "''20240101_120000_000001''" "''1a2b3c4d-0000-4000-8000-000000000000''" no_files]
    by (simp add: p)
qed

end
